theory Spec2Isabelle
  imports Complex_Main "HOL-Library.Word"
begin

unbundle bit_operations_syntax

section \<open>IEEE binary64 values\<close>

text \<open>
  A \<^verbatim>\<open>double\<close> is its 64-bit pattern: sign bit 63, exponent bits 62..52, fraction
  bits 51..0.  The classification of a pattern and the ordered comparison of LLVM's
  \<^verbatim>\<open>fcmp oeq\<close> are functions of the bits alone and are written out.  Rounded
  arithmetic and the C library's \<^verbatim>\<open>acosh\<close> belong to the machine that runs the
  generated code; they are the fields of an \<open>fpu\<close>, over which every result is
  universally quantified.
\<close>

type_synonym double = "64 word"

definition fp_magnitude :: "double \<Rightarrow> double" where
  "fp_magnitude d = d AND 0x7FFFFFFFFFFFFFFF"

definition is_nan :: "double \<Rightarrow> bool" where
  "is_nan d = (0x7FF0000000000000 < fp_magnitude d)"

definition is_inf :: "double \<Rightarrow> bool" where
  "is_inf d = (fp_magnitude d = 0x7FF0000000000000)"

definition is_zero :: "double \<Rightarrow> bool" where
  "is_zero d = (fp_magnitude d = 0)"

definition pos_zero :: double where "pos_zero = 0"
definition pos_inf :: double where "pos_inf = 0x7FF0000000000000"
definition quiet_nan :: double where "quiet_nan = 0x7FF8000000000000"

text \<open>\<^verbatim>\<open>fcmp oeq\<close>: both operands are ordered (neither is a NaN) and they are equal as
  numbers.  Every number but zero has one bit pattern; zero has two.\<close>

definition fcmp_oeq :: "double \<Rightarrow> double \<Rightarrow> bool" where
  "fcmp_oeq a b = (\<not> is_nan a \<and> \<not> is_nan b \<and> (a = b \<or> (is_zero a \<and> is_zero b)))"

text \<open>\<^verbatim>\<open>fneg\<close> flips the sign bit.\<close>

definition fneg :: "double \<Rightarrow> double" where
  "fneg d = d XOR 0x8000000000000000"

record fpu =
  fadd :: "double \<Rightarrow> double \<Rightarrow> double"
  fsub :: "double \<Rightarrow> double \<Rightarrow> double"
  fmul :: "double \<Rightarrow> double \<Rightarrow> double"
  fdiv :: "double \<Rightarrow> double \<Rightarrow> double"
  cmath_acosh :: "double \<Rightarrow> double"

text \<open>
  The builder of \<^verbatim>\<open>from_graph\<close> folds constants with \<^verbatim>\<open>llvm::APFloat\<close>, whose code
  is not among the sources either: its four rounded operations are the fields of an
  \<open>apfloat\<close>.  Nothing relates them to the operations of the machine that runs the
  function.
\<close>

record apfloat =
  ap_add :: "double \<Rightarrow> double \<Rightarrow> double"
  ap_subtract :: "double \<Rightarrow> double \<Rightarrow> double"
  ap_multiply :: "double \<Rightarrow> double \<Rightarrow> double"
  ap_divide :: "double \<Rightarrow> double \<Rightarrow> double"


section \<open>The C++ AD graph\<close>

text \<open>
  \<^verbatim>\<open>graph_op_enum\<close> is declared outside the files at hand.  The seven enumerators
  that the switch of \<^verbatim>\<open>from_graph\<close> names are constructors of their own; every other
  enumerator is \<open>other_graph_op s\<close>, where \<open>s\<close> is the name the table
  \<^verbatim>\<open>op_enum2name\<close> gives it.
\<close>

datatype graph_op_enum =
    acosh_graph_op
  | add_graph_op
  | azmul_graph_op
  | div_graph_op
  | mul_graph_op
  | neg_graph_op
  | sub_graph_op
  | other_graph_op string

fun op_enum2name :: "graph_op_enum \<Rightarrow> string" where
  "op_enum2name acosh_graph_op = ''acosh''"
| "op_enum2name add_graph_op = ''add''"
| "op_enum2name azmul_graph_op = ''azmul''"
| "op_enum2name div_graph_op = ''div''"
| "op_enum2name mul_graph_op = ''mul''"
| "op_enum2name neg_graph_op = ''neg''"
| "op_enum2name sub_graph_op = ''sub''"
| "op_enum2name (other_graph_op s) = s"

text \<open>What \<^verbatim>\<open>*itr\<close> yields for one operator of the graph.\<close>

record itr_value =
  op_enum :: graph_op_enum
  str_index :: "nat list"
  n_result :: nat
  arg_node :: "nat list"

text \<open>The graph object, as its getters show it.  \<open>operator_vec\<close> lists what the
  \<^verbatim>\<open>const_iterator\<close> yields from \<^verbatim>\<open>begin()\<close> on, one entry per operator.\<close>

record cpp_graph =
  function_name :: string
  discrete_name_vec :: "string list"
  atomic_name_vec :: "string list"
  print_text_vec :: "string list"
  n_dynamic_ind :: nat
  n_variable_ind :: nat
  constant_vec :: "double list"
  operator_vec :: "itr_value list"
  dependent_vec :: "nat list"

section \<open>The generated intermediate representation\<close>

text \<open>
  An \<^verbatim>\<open>llvm::Value*\<close> is a constant, one of the four arguments of the function, or
  the result of an instruction, named by its basic block and its position there.  A
  constant is a 32-bit integer, a truth value (of type \<^verbatim>\<open>i1\<close>) or a double.
\<close>

datatype llvm_value =
    ConstantInt "32 word"
  | ConstantInt1 bool
  | ConstantFP double
  | Argument nat
  | Instruction string nat

datatype instr =
    ICmpNE llvm_value llvm_value
  | OrI llvm_value llvm_value
  | ZExt llvm_value
  | GEP llvm_value llvm_value
  | Load llvm_value
  | Store llvm_value llvm_value
  | FAdd llvm_value llvm_value
  | FSub llvm_value llvm_value
  | FMul llvm_value llvm_value
  | FDiv llvm_value llvm_value
  | FNeg llvm_value
  | Call string "llvm_value list"
  | FCmpOEQ llvm_value llvm_value
  | Select llvm_value llvm_value llvm_value
  | CondBr llvm_value string string
  | Ret llvm_value

type_synonym basic_block = "instr list"

record llvm_function =
  fn_name :: string
  basic_blocks :: "(string \<times> basic_block) list"

text \<open>A module is its symbol table, in the order of insertion: functions that are
  only declared, and functions with a body.\<close>

datatype global_value = Declaration string | Definition llvm_function

record llvm_module =
  module_id :: string
  globals :: "global_value list"

fun global_name :: "global_value \<Rightarrow> string" where
  "global_name (Declaration n) = n"
| "global_name (Definition f) = fn_name f"

definition getFunction :: "llvm_module \<Rightarrow> string \<Rightarrow> global_value option" where
  "getFunction mdl n = find (\<lambda>g. global_name g = n) (globals mdl)"

text \<open>\<^verbatim>\<open>getOrInsertFunction\<close> of a function that has no body.\<close>

definition getOrInsertFunction :: "string \<Rightarrow> llvm_module \<Rightarrow> llvm_module" where
  "getOrInsertFunction n mdl =
     (if getFunction mdl n = None then mdl\<lparr>globals := globals mdl @ [Declaration n]\<rparr> else mdl)"

text \<open>\<^verbatim>\<open>Function::Create\<close> enters a new function under the name asked for; when the
  symbol table already has that name, LLVM gives the new function another one.\<close>

definition unique_name :: "llvm_module \<Rightarrow> string \<Rightarrow> string" where
  "unique_name mdl n = (if getFunction mdl n = None then n else n @ ''.1'')"

fun defined_functions :: "global_value list \<Rightarrow> llvm_function list" where
  "defined_functions [] = []"
| "defined_functions (Declaration n # gs) = defined_functions gs"
| "defined_functions (Definition f # gs) = f # defined_functions gs"

text \<open>An \<^verbatim>\<open>LLVMContext\<close> owns the types and the constants; the model keeps nothing
  of it but that there is one.\<close>

datatype llvm_context = LLVMContext

text \<open>The members of an \<^verbatim>\<open>llvm_ir\<close> object that \<^verbatim>\<open>from_graph\<close> assigns (a member
  \<^verbatim>\<open>x_\<close> is the field \<open>this_x\<close>).  The last two are owning pointers, \<open>None\<close> when
  null.\<close>

record llvm_ir =
  this_n_dynamic_ind :: nat
  this_n_variable_ind :: nat
  this_n_variable_dep :: nat
  this_function_name :: string
  this_context_ir :: "llvm_context option"
  this_module_ir :: "llvm_module option"

subsection \<open>Running a function\<close>

datatype buffer = InputBuffer | OutputBuffer

datatype rvalue =
    Int1 bool
  | Int32 "32 word"
  | Double double
  | Pointer buffer int
  | NoValue

record memory =
  input_buf :: "double list"
  output_buf :: "double list"

type_synonym regs = "string \<times> nat \<Rightarrow> rvalue option"

fun buffer_get :: "memory \<Rightarrow> buffer \<Rightarrow> double list" where
  "buffer_get m InputBuffer = input_buf m"
| "buffer_get m OutputBuffer = output_buf m"

fun buffer_set :: "memory \<Rightarrow> buffer \<Rightarrow> double list \<Rightarrow> memory" where
  "buffer_set m InputBuffer xs = m\<lparr>input_buf := xs\<rparr>"
| "buffer_set m OutputBuffer xs = m\<lparr>output_buf := xs\<rparr>"

fun eval_value :: "rvalue list \<Rightarrow> regs \<Rightarrow> llvm_value \<Rightarrow> rvalue option" where
  "eval_value args rs (ConstantInt w) = Some (Int32 w)"
| "eval_value args rs (ConstantInt1 c) = Some (Int1 c)"
| "eval_value args rs (ConstantFP d) = Some (Double d)"
| "eval_value args rs (Argument k) = (if k < length args then Some (args ! k) else None)"
| "eval_value args rs (Instruction bb k) = rs (bb, k)"

text \<open>A binary floating-point instruction.\<close>

fun fp_binary :: "(double \<Rightarrow> double \<Rightarrow> double) \<Rightarrow> rvalue option \<Rightarrow> rvalue option
    \<Rightarrow> rvalue option" where
  "fp_binary f (Some (Double x)) (Some (Double y)) = Some (Double (f x y))"
| "fp_binary f _ _ = None"

text \<open>One instruction that is not a terminator: its result and the memory after it.
  \<open>None\<close> is undefined behaviour: an operand of the wrong type or not yet defined, an
  access outside a buffer, a call of an unknown function.  The index of a
  \<^verbatim>\<open>getelementptr\<close> is a signed 32-bit integer.\<close>

fun exec_instr :: "fpu \<Rightarrow> rvalue list \<Rightarrow> regs \<Rightarrow> memory \<Rightarrow> instr
    \<Rightarrow> (rvalue \<times> memory) option" where
  "exec_instr u args rs m (ICmpNE a b) =
     (case (eval_value args rs a, eval_value args rs b) of
        (Some (Int32 x), Some (Int32 y)) \<Rightarrow> Some (Int1 (x \<noteq> y), m)
      | _ \<Rightarrow> None)"
| "exec_instr u args rs m (OrI a b) =
     (case (eval_value args rs a, eval_value args rs b) of
        (Some (Int1 x), Some (Int1 y)) \<Rightarrow> Some (Int1 (x \<or> y), m)
      | _ \<Rightarrow> None)"
| "exec_instr u args rs m (ZExt a) =
     (case eval_value args rs a of
        Some (Int1 x) \<Rightarrow> Some (Int32 (if x then 1 else 0), m)
      | _ \<Rightarrow> None)"
| "exec_instr u args rs m (GEP p i) =
     (case (eval_value args rs p, eval_value args rs i) of
        (Some (Pointer b off), Some (Int32 w)) \<Rightarrow> Some (Pointer b (off + sint w), m)
      | _ \<Rightarrow> None)"
| "exec_instr u args rs m (Load p) =
     (case eval_value args rs p of
        Some (Pointer b off) \<Rightarrow>
          (if 0 \<le> off \<and> nat off < length (buffer_get m b)
           then Some (Double (buffer_get m b ! nat off), m) else None)
      | _ \<Rightarrow> None)"
| "exec_instr u args rs m (Store v p) =
     (case (eval_value args rs v, eval_value args rs p) of
        (Some (Double d), Some (Pointer b off)) \<Rightarrow>
          (if 0 \<le> off \<and> nat off < length (buffer_get m b)
           then Some (NoValue, buffer_set m b ((buffer_get m b)[nat off := d])) else None)
      | _ \<Rightarrow> None)"
| "exec_instr u args rs m (FAdd a b) =
     map_option (\<lambda>r. (r, m)) (fp_binary (fadd u) (eval_value args rs a) (eval_value args rs b))"
| "exec_instr u args rs m (FSub a b) =
     map_option (\<lambda>r. (r, m)) (fp_binary (fsub u) (eval_value args rs a) (eval_value args rs b))"
| "exec_instr u args rs m (FMul a b) =
     map_option (\<lambda>r. (r, m)) (fp_binary (fmul u) (eval_value args rs a) (eval_value args rs b))"
| "exec_instr u args rs m (FDiv a b) =
     map_option (\<lambda>r. (r, m)) (fp_binary (fdiv u) (eval_value args rs a) (eval_value args rs b))"
| "exec_instr u args rs m (FNeg a) =
     (case eval_value args rs a of
        Some (Double x) \<Rightarrow> Some (Double (fneg x), m)
      | _ \<Rightarrow> None)"
| "exec_instr u args rs m (Call callee actuals) =
     (case map (eval_value args rs) actuals of
        [Some (Double x)] \<Rightarrow>
          (if callee = ''acosh'' then Some (Double (cmath_acosh u x), m) else None)
      | _ \<Rightarrow> None)"
| "exec_instr u args rs m (FCmpOEQ a b) =
     (case (eval_value args rs a, eval_value args rs b) of
        (Some (Double x), Some (Double y)) \<Rightarrow> Some (Int1 (fcmp_oeq x y), m)
      | _ \<Rightarrow> None)"
| "exec_instr u args rs m (Select c a b) =
     (case (eval_value args rs c, eval_value args rs a, eval_value args rs b) of
        (Some (Int1 t), Some (Double x), Some (Double y)) \<Rightarrow>
          Some (Double (if t then x else y), m)
      | _ \<Rightarrow> None)"
| "exec_instr u args rs m (CondBr c t f) = None"
| "exec_instr u args rs m (Ret v) = None"

datatype control = Jump string | Return rvalue

text \<open>A basic block from its \<open>k\<close>-th instruction on, up to its terminator.  A block
  that ends without one is malformed.\<close>

fun exec_block :: "fpu \<Rightarrow> rvalue list \<Rightarrow> string \<Rightarrow> nat \<Rightarrow> basic_block \<Rightarrow> regs \<Rightarrow> memory
    \<Rightarrow> (control \<times> regs \<times> memory) option" where
  "exec_block u args bb k [] rs m = None"
| "exec_block u args bb k (CondBr c t f # rest) rs m =
     (case eval_value args rs c of
        Some (Int1 x) \<Rightarrow> Some (Jump (if x then t else f), rs, m)
      | _ \<Rightarrow> None)"
| "exec_block u args bb k (Ret v # rest) rs m =
     (case eval_value args rs v of
        Some r \<Rightarrow> Some (Return r, rs, m)
      | None \<Rightarrow> None)"
| "exec_block u args bb k (i # rest) rs m =
     (case exec_instr u args rs m i of
        None \<Rightarrow> None
      | Some (r, m') \<Rightarrow> exec_block u args bb (Suc k) rest (rs((bb, k) \<mapsto> r)) m')"

text \<open>Blocks are run one after the other, following the branches, until one returns.
  The fuel bounds the number of blocks entered; running out of it is \<open>None\<close>.\<close>

fun run_blocks :: "fpu \<Rightarrow> rvalue list \<Rightarrow> (string \<times> basic_block) list \<Rightarrow> nat \<Rightarrow> string
    \<Rightarrow> regs \<Rightarrow> memory \<Rightarrow> (rvalue \<times> memory) option" where
  "run_blocks u args blocks 0 bb rs m = None"
| "run_blocks u args blocks (Suc fuel) bb rs m =
     (case map_of blocks bb of
        None \<Rightarrow> None
      | Some body \<Rightarrow>
          (case exec_block u args bb 0 body rs m of
             None \<Rightarrow> None
           | Some (Jump bb', rs', m') \<Rightarrow> run_blocks u args blocks fuel bb' rs' m'
           | Some (Return r, rs', m') \<Rightarrow> Some (r, m')))"

text \<open>Execution starts at the first block of the function.\<close>

definition call_function :: "fpu \<Rightarrow> nat \<Rightarrow> llvm_function \<Rightarrow> rvalue list \<Rightarrow> memory
    \<Rightarrow> (rvalue \<times> memory) option" where
  "call_function u fuel f args m =
     (case basic_blocks f of
        [] \<Rightarrow> None
      | (entry, body) # rest \<Rightarrow> run_blocks u args (basic_blocks f) fuel entry Map.empty m)"

text \<open>The four arguments of a call: the two lengths, and the two pointers to the start
  of their buffers.\<close>

definition call_args :: "32 word \<Rightarrow> 32 word \<Rightarrow> rvalue list" where
  "call_args len_input len_output =
     [Int32 len_input, Pointer InputBuffer 0, Int32 len_output, Pointer OutputBuffer 0]"

text \<open>
  A call of the function that the module defines, the compiled
  \<^verbatim>\<open>int32_t f(int32_t len_input, double* input_ptr, int32_t len_output, double* output_ptr)\<close>.
  The two pointers address two disjoint buffers, given by their contents.  The result is
  the returned code and the contents of the output buffer after the call.
\<close>

definition call_artifact :: "fpu \<Rightarrow> nat \<Rightarrow> llvm_ir \<Rightarrow> 32 word \<Rightarrow> double list \<Rightarrow> 32 word
    \<Rightarrow> double list \<Rightarrow> (32 word \<times> double list) option" where
  "call_artifact u fuel ir len_input input len_output output =
     (case this_module_ir ir of
        None \<Rightarrow> None
      | Some mdl \<Rightarrow>
          (case defined_functions (globals mdl) of
             [f] \<Rightarrow>
               (case call_function u fuel f (call_args len_input len_output)
                       \<lparr>input_buf = input, output_buf = output\<rparr> of
                  Some (Int32 rc, m') \<Rightarrow> Some (rc, output_buf m')
                | _ \<Rightarrow> None)
           | _ \<Rightarrow> None))"


section \<open>\<^verbatim>\<open>llvm_ir::from_graph\<close>\<close>

text \<open>The vector \<^verbatim>\<open>graph_ir\<close>: one \<^verbatim>\<open>llvm::Value*\<close> per node index; \<open>None\<close> is
  \<^verbatim>\<open>nullptr\<close>.\<close>

type_synonym graph_ir_t = "llvm_value option list"

text \<open>The builder appends an instruction to the block it is set to insert into, and
  hands back the instruction as a value.\<close>

definition insert_instr :: "string \<Rightarrow> instr \<Rightarrow> basic_block \<Rightarrow> llvm_value \<times> basic_block" where
  "insert_instr bb i body = (Instruction bb (length body), body @ [i])"

text \<open>
  The builder of line 212 is an \<^verbatim>\<open>llvm::IRBuilder<>\<close> with its default folder,
  \<^verbatim>\<open>llvm::ConstantFolder\<close>.  Asked for an arithmetic instruction, a comparison or a
  select all of whose operands are constants, it appends nothing and hands back the
  constant that the folder computes; otherwise it appends the instruction.  The operands
  that \<^verbatim>\<open>from_graph\<close> passes are of type \<^verbatim>\<open>double\<close> or \<^verbatim>\<open>i1\<close>, whose constants here
  are \<open>ConstantFP\<close> and \<open>ConstantInt1\<close>: \<open>constant_fp\<close> and \<open>constant_i1\<close> are the two
  \<^verbatim>\<open>dyn_cast\<close>.  A folded sum, difference, product or quotient is computed by
  \<^verbatim>\<open>llvm::APFloat\<close>; a folded negation flips the sign bit and a folded comparison is
  the comparison of the two constants, and both are written with the functions on bit
  patterns.
\<close>

fun constant_fp :: "llvm_value \<Rightarrow> double option" where
  "constant_fp (ConstantFP d) = Some d"
| "constant_fp v = None"

fun constant_i1 :: "llvm_value \<Rightarrow> bool option" where
  "constant_i1 (ConstantInt1 c) = Some c"
| "constant_i1 v = None"

text \<open>\<^verbatim>\<open>CreateFAdd\<close>, \<^verbatim>\<open>CreateFSub\<close>, \<^verbatim>\<open>CreateFMul\<close> and \<^verbatim>\<open>CreateFDiv\<close>: \<open>folded\<close> is
  the operation of \<^verbatim>\<open>APFloat\<close> and \<open>create\<close> makes the instruction.\<close>

definition CreateFBinOp :: "(double \<Rightarrow> double \<Rightarrow> double) \<Rightarrow> (llvm_value \<Rightarrow> llvm_value \<Rightarrow> instr)
    \<Rightarrow> llvm_value \<Rightarrow> llvm_value \<Rightarrow> basic_block \<Rightarrow> llvm_value \<times> basic_block" where
  "CreateFBinOp folded create a b merge =
     (case constant_fp a of
        None \<Rightarrow> insert_instr ''merge_bb'' (create a b) merge
      | Some x \<Rightarrow>
          (case constant_fp b of
             None \<Rightarrow> insert_instr ''merge_bb'' (create a b) merge
           | Some y \<Rightarrow> (ConstantFP (folded x y), merge)))"

definition CreateFNeg :: "llvm_value \<Rightarrow> basic_block \<Rightarrow> llvm_value \<times> basic_block" where
  "CreateFNeg a merge =
     (case constant_fp a of
        None \<Rightarrow> insert_instr ''merge_bb'' (FNeg a) merge
      | Some x \<Rightarrow> (ConstantFP (fneg x), merge))"

definition CreateFCmpOEQ :: "llvm_value \<Rightarrow> llvm_value \<Rightarrow> basic_block \<Rightarrow> llvm_value \<times> basic_block" where
  "CreateFCmpOEQ a b merge =
     (case constant_fp a of
        None \<Rightarrow> insert_instr ''merge_bb'' (FCmpOEQ a b) merge
      | Some x \<Rightarrow>
          (case constant_fp b of
             None \<Rightarrow> insert_instr ''merge_bb'' (FCmpOEQ a b) merge
           | Some y \<Rightarrow> (ConstantInt1 (fcmp_oeq x y), merge)))"

definition CreateSelect :: "llvm_value \<Rightarrow> llvm_value \<Rightarrow> llvm_value \<Rightarrow> basic_block
    \<Rightarrow> llvm_value \<times> basic_block" where
  "CreateSelect c a b merge =
     (case constant_i1 c of
        None \<Rightarrow> insert_instr ''merge_bb'' (Select c a b) merge
      | Some t \<Rightarrow>
          (case constant_fp a of
             None \<Rightarrow> insert_instr ''merge_bb'' (Select c a b) merge
           | Some x \<Rightarrow>
               (case constant_fp b of
                  None \<Rightarrow> insert_instr ''merge_bb'' (Select c a b) merge
                | Some y \<Rightarrow> (ConstantFP (if t then x else y), merge))))"

text \<open>\<^verbatim>\<open>llvm::APInt(32, n, is_signed)\<close> of a \<^verbatim>\<open>size_t\<close>: the low 32 bits.\<close>

definition APInt32 :: "nat \<Rightarrow> 32 word" where
  "APInt32 n = word_of_nat n"

text \<open>Addition of two \<^verbatim>\<open>size_t\<close>.\<close>

definition size_t_add :: "nat \<Rightarrow> nat \<Rightarrow> nat" where
  "size_t_add a b = (a + b) mod 2 ^ 64"

text \<open>Lines 222 to 260: the check of the two lengths.  The result is the value
  \<^verbatim>\<open>error_no\<close>, the entry block and the block \<^verbatim>\<open>error_bb\<close>.  An operand of each
  instruction is an argument of the function or an instruction, so that the builder
  folds none of them.\<close>

definition check_lengths :: "nat \<Rightarrow> nat \<Rightarrow> llvm_value \<times> basic_block \<times> basic_block" where
  "check_lengths n_input n_dep =
     (let expected_len_input = ConstantInt (APInt32 n_input);
          (error_len_input, bb1) =
             insert_instr ''EntryBlock'' (ICmpNE (Argument 0) expected_len_input) [];
          expected_len_output = ConstantInt (APInt32 n_dep);
          (error_len_output, bb2) =
             insert_instr ''EntryBlock'' (ICmpNE (Argument 2) expected_len_output) bb1;
          (error_len, bb3) =
             insert_instr ''EntryBlock'' (OrI error_len_input error_len_output) bb2;
          (error_no, bb4) = insert_instr ''EntryBlock'' (ZExt error_len) bb3;
          (br, bb5) = insert_instr ''EntryBlock'' (CondBr error_len ''error_bb'' ''merge_bb'') bb4;
          (rt, error_bb) = insert_instr ''error_bb'' (Ret error_no) []
      in (error_no, bb5, error_bb))"

text \<open>Lines 264 to 288: the body of the two loops over the independents; \<open>offset\<close> is
  0 in the first loop and \<^verbatim>\<open>n_dynamic_ind_\<close> in the second.\<close>

definition load_independent :: "nat \<Rightarrow> nat \<Rightarrow> basic_block \<times> graph_ir_t
    \<Rightarrow> basic_block \<times> graph_ir_t" where
  "load_independent offset i st =
     (case st of (merge, graph_ir) \<Rightarrow>
        (let index_vector = ConstantInt (APInt32 (offset + i));
             (ptr, merge1) = insert_instr ''merge_bb'' (GEP (Argument 1) index_vector) merge;
             (val, merge2) = insert_instr ''merge_bb'' (Load ptr) merge1
         in (merge2, graph_ir @ [Some val])))"

text \<open>Line 291: the zero floating point constant.\<close>

definition fp_zero :: llvm_value where
  "fp_zero = ConstantFP pos_zero"

text \<open>\<^verbatim>\<open>graph_ir[arg[j]]\<close>, both subscripts unchecked: outside either vector the
  behaviour is undefined, and a null pointer is no operand.\<close>

definition operand :: "graph_ir_t \<Rightarrow> nat list \<Rightarrow> nat \<Rightarrow> llvm_value option" where
  "operand graph_ir arg j =
     (if j < length arg \<and> arg ! j < length graph_ir then graph_ir ! (arg ! j) else None)"

definition unsupported_operator :: "graph_op_enum \<Rightarrow> string" where
  "unsupported_operator op = ''graph_obj has following unsupported operator '' @ op_enum2name op"

text \<open>Lines 329 to 353, compiled without \<^verbatim>\<open>NDEBUG\<close>: \<open>None\<close> is a failed assertion,
  \<open>Some (Inl m)\<close> the return with a message, \<open>Some (Inr ())\<close> falls through.\<close>

definition debug_switch :: "itr_value \<Rightarrow> (string + unit) option" where
  "debug_switch itr_val =
     (let n_arg = length (arg_node itr_val);
          n_str = length (str_index itr_val);
          unary = (if n_arg = 1 \<and> n_result itr_val = 1 \<and> n_str = 0
                   then Some (Inr ()) else None);
          binary = (if n_arg = 2 \<and> n_result itr_val = 1 \<and> n_str = 0
                    then Some (Inr ()) else None)
      in case op_enum itr_val of
           acosh_graph_op \<Rightarrow> unary
         | neg_graph_op \<Rightarrow> unary
         | add_graph_op \<Rightarrow> binary
         | sub_graph_op \<Rightarrow> binary
         | mul_graph_op \<Rightarrow> binary
         | div_graph_op \<Rightarrow> binary
         | azmul_graph_op \<Rightarrow> binary
         | other_graph_op s \<Rightarrow> Some (Inl (unsupported_operator (op_enum itr_val))))"

text \<open>Lines 360 to 364: \<^verbatim>\<open>CreateCall\<close> always appends the call.\<close>

definition acosh_case :: "nat list \<Rightarrow> basic_block \<times> graph_ir_t
    \<Rightarrow> (string + basic_block \<times> graph_ir_t) option" where
  "acosh_case arg st =
     (case st of (merge, graph_ir) \<Rightarrow>
        (case operand graph_ir arg 0 of
           None \<Rightarrow> None
         | Some a \<Rightarrow>
             (let (val, merge1) = insert_instr ''merge_bb'' (Call ''acosh'' [a]) merge
              in Some (Inr (merge1, graph_ir @ [Some val])))))"

text \<open>A case of the second switch that asks the builder for one two-operand
  instruction.\<close>

definition binary_case :: "(double \<Rightarrow> double \<Rightarrow> double) \<Rightarrow> (llvm_value \<Rightarrow> llvm_value \<Rightarrow> instr)
    \<Rightarrow> nat list \<Rightarrow> basic_block \<times> graph_ir_t \<Rightarrow> (string + basic_block \<times> graph_ir_t) option" where
  "binary_case folded create arg st =
     (case st of (merge, graph_ir) \<Rightarrow>
        (case operand graph_ir arg 0 of
           None \<Rightarrow> None
         | Some a \<Rightarrow>
             (case operand graph_ir arg 1 of
                None \<Rightarrow> None
              | Some b \<Rightarrow>
                  (let (val, merge1) = CreateFBinOp folded create a b merge
                   in Some (Inr (merge1, graph_ir @ [Some val]))))))"

text \<open>Lines 381 to 384.\<close>

definition neg_case :: "nat list \<Rightarrow> basic_block \<times> graph_ir_t
    \<Rightarrow> (string + basic_block \<times> graph_ir_t) option" where
  "neg_case arg st =
     (case st of (merge, graph_ir) \<Rightarrow>
        (case operand graph_ir arg 0 of
           None \<Rightarrow> None
         | Some a \<Rightarrow>
             (let (val, merge1) = CreateFNeg a merge
              in Some (Inr (merge1, graph_ir @ [Some val])))))"

text \<open>Lines 394 to 413: the product, the comparison of the first operand with zero,
  and the choice between zero and the product.\<close>

definition azmul_case :: "(double \<Rightarrow> double \<Rightarrow> double) \<Rightarrow> nat list \<Rightarrow> basic_block \<times> graph_ir_t
    \<Rightarrow> (string + basic_block \<times> graph_ir_t) option" where
  "azmul_case folded arg st =
     (case st of (merge, graph_ir) \<Rightarrow>
        (case operand graph_ir arg 0 of
           None \<Rightarrow> None
         | Some a \<Rightarrow>
             (case operand graph_ir arg 1 of
                None \<Rightarrow> None
              | Some b \<Rightarrow>
                  (let (val, merge1) = CreateFBinOp folded FMul a b merge;
                       (is_zero, merge2) = CreateFCmpOEQ a fp_zero merge1;
                       (val', merge3) = CreateSelect is_zero fp_zero val merge2
                   in Some (Inr (merge3, graph_ir @ [Some val']))))))"

text \<open>Lines 355 to 422: the switch that creates the instructions of one operator.
  \<open>None\<close> is undefined behaviour, \<open>Some (Inl m)\<close> the return with the message \<open>m\<close>.\<close>

definition lowering_switch :: "apfloat \<Rightarrow> itr_value \<Rightarrow> basic_block \<times> graph_ir_t
    \<Rightarrow> (string + basic_block \<times> graph_ir_t) option" where
  "lowering_switch ap itr_val st =
     (let arg = arg_node itr_val
      in case op_enum itr_val of
           acosh_graph_op \<Rightarrow> acosh_case arg st
         | add_graph_op \<Rightarrow> binary_case (ap_add ap) FAdd arg st
         | div_graph_op \<Rightarrow> binary_case (ap_divide ap) FDiv arg st
         | mul_graph_op \<Rightarrow> binary_case (ap_multiply ap) FMul arg st
         | neg_graph_op \<Rightarrow> neg_case arg st
         | sub_graph_op \<Rightarrow> binary_case (ap_subtract ap) FSub arg st
         | azmul_graph_op \<Rightarrow> azmul_case (ap_multiply ap) arg st
         | other_graph_op s \<Rightarrow> Some (Inl (unsupported_operator (op_enum itr_val))))"

text \<open>Lines 319 to 422: the body of the loop over the operators, the first switch
  compiled only without \<^verbatim>\<open>NDEBUG\<close>.\<close>

definition lower_operator :: "apfloat \<Rightarrow> bool \<Rightarrow> itr_value \<Rightarrow> basic_block \<times> graph_ir_t
    \<Rightarrow> (string + basic_block \<times> graph_ir_t) option" where
  "lower_operator ap ndebug itr_val st =
     (case (if ndebug then Some (Inr ()) else debug_switch itr_val) of
        None \<Rightarrow> None
      | Some (Inl m) \<Rightarrow> Some (Inl m)
      | Some (Inr _) \<Rightarrow> lowering_switch ap itr_val st)"

text \<open>The loop over the operators, from line 314: it stops at the first return.  A
  return with a message leaves the block as it was built so far.\<close>

fun lower_operators :: "apfloat \<Rightarrow> bool \<Rightarrow> itr_value list \<Rightarrow> basic_block \<times> graph_ir_t
    \<Rightarrow> (string \<times> basic_block + basic_block \<times> graph_ir_t) option" where
  "lower_operators ap ndebug [] st = Some (Inr st)"
| "lower_operators ap ndebug (itr_val # rest) st =
     (case lower_operator ap ndebug itr_val st of
        None \<Rightarrow> None
      | Some (Inl m) \<Rightarrow> Some (Inl (m, fst st))
      | Some (Inr st') \<Rightarrow> lower_operators ap ndebug rest st')"

text \<open>Lines 425 to 439: the loop over the dependents; \<open>i\<close> counts them and
  \<open>node_index # rest\<close> are \<^verbatim>\<open>dependent_vec_get(i)\<close> and those that follow.  The store is
  an instruction whatever its operand is, and \<^verbatim>\<open>setName\<close> changes no value.\<close>

fun store_dependents :: "graph_ir_t \<Rightarrow> nat \<Rightarrow> nat list \<Rightarrow> basic_block \<Rightarrow> basic_block option" where
  "store_dependents graph_ir i [] merge = Some merge"
| "store_dependents graph_ir i (node_index # rest) merge =
     (case (if node_index < length graph_ir then graph_ir ! node_index else None) of
        None \<Rightarrow> None
      | Some v \<Rightarrow>
          (let index_vector = ConstantInt (APInt32 i);
               (ptr, merge1) = insert_instr ''merge_bb'' (GEP (Argument 3) index_vector) merge;
               (st, merge2) = insert_instr ''merge_bb'' (Store v ptr) merge1
           in store_dependents graph_ir (Suc i) rest merge2))"

text \<open>Lines 261 to 423: the values of all nodes, independents first, then the constants,
  then the operators.  The bounds of the first two loops are the members
  \<^verbatim>\<open>n_dynamic_ind_\<close> and \<^verbatim>\<open>n_variable_ind_\<close>, which lines 114 and 115 have set to
  the two counts of the graph.\<close>

definition lower_nodes :: "apfloat \<Rightarrow> bool \<Rightarrow> cpp_graph
    \<Rightarrow> (string \<times> basic_block + basic_block \<times> graph_ir_t) option" where
  "lower_nodes ap ndebug graph_obj =
     (let st0 = ([], [None]);
          st1 = fold (load_independent 0) [0..<n_dynamic_ind graph_obj] st0;
          st2 = fold (load_independent (n_dynamic_ind graph_obj))
                  [0..<n_variable_ind graph_obj] st1;
          st3 = (fst st2, snd st2 @ map (\<lambda>c_i. Some (ConstantFP c_i)) (constant_vec graph_obj))
      in lower_operators ap ndebug (operator_vec graph_obj) st3)"

text \<open>The module with the function as built so far.\<close>

definition build_module :: "string \<Rightarrow> basic_block \<Rightarrow> basic_block \<Rightarrow> basic_block
    \<Rightarrow> llvm_function \<times> llvm_module" where
  "build_module name entry error_bb merge =
     (let mdl0 = getOrInsertFunction ''acosh'' \<lparr>module_id = ''test'', globals = []\<rparr>;
          function_ir = \<lparr>fn_name = unique_name mdl0 name,
             basic_blocks = [(''EntryBlock'', entry), (''error_bb'', error_bb),
                             (''merge_bb'', merge)]\<rparr>
      in (function_ir, mdl0\<lparr>globals := globals mdl0 @ [Definition function_ir]\<rparr>))"

text \<open>Lines 114 to 121: the scalar members and the name.\<close>

definition assign_scalars :: "llvm_ir \<Rightarrow> cpp_graph \<Rightarrow> llvm_ir" where
  "assign_scalars this graph_obj =
     this\<lparr>this_n_dynamic_ind := n_dynamic_ind graph_obj,
          this_n_variable_ind := n_variable_ind graph_obj,
          this_n_variable_dep := length (dependent_vec graph_obj),
          this_function_name := function_name graph_obj\<rparr>"

text \<open>Lines 128 and 131, the object once both assignments are done, with the module
  that the rest of the function fills.\<close>

definition assign_module :: "llvm_ir \<Rightarrow> llvm_module \<Rightarrow> llvm_ir" where
  "assign_module this mdl = this\<lparr>this_context_ir := Some LLVMContext, this_module_ir := Some mdl\<rparr>"

text \<open>Lines 440 to 456: the return of the function, the assertion that the module
  finds the function under its name, and the verification.\<close>

definition finish_function :: "bool \<Rightarrow> (llvm_function \<Rightarrow> bool) \<Rightarrow> string \<Rightarrow> llvm_ir
    \<Rightarrow> llvm_value \<Rightarrow> basic_block \<Rightarrow> basic_block \<Rightarrow> basic_block \<Rightarrow> (string \<times> llvm_ir) option" where
  "finish_function ndebug verifyFunction msg this error_no entry error_bb merge =
     (let (rt, merge1) = insert_instr ''merge_bb'' (Ret error_no) merge;
          (function_ir, mdl) = build_module (this_function_name this) entry error_bb merge1;
          this1 = assign_module this mdl
      in if \<not> ndebug \<and>
            getFunction mdl (this_function_name this) \<noteq> Some (Definition function_ir)
         then None
         else if verifyFunction function_ir
         then Some (msg @ ''error during verification of llvm_ir function'', this1)
         else Some ([], this1))"

text \<open>
  Lines 127 to 456: the function is built, block by block.  Both \<^verbatim>\<open>context_ir_\<close> and
  \<^verbatim>\<open>module_ir_\<close> are assigned the result of \<^verbatim>\<open>std::make_unique\<close>, so each assignment
  destroys what the member held.  A module that the object holds was created in the
  context that the object holds (line 131 is the one place that creates a module), and
  a context that is destroyed deletes the modules created in it.  On an object that
  holds a module, line 128 therefore deletes the module and line 131 deletes it a second
  time: the behaviour is undefined, which is \<open>None\<close>.
\<close>

definition build_function :: "apfloat \<Rightarrow> bool \<Rightarrow> (llvm_function \<Rightarrow> bool) \<Rightarrow> string \<Rightarrow> llvm_ir
    \<Rightarrow> cpp_graph \<Rightarrow> (string \<times> llvm_ir) option" where
  "build_function ap ndebug verifyFunction msg this graph_obj =
     (if this_module_ir this \<noteq> None then None
      else
        (let n_input = size_t_add (this_n_dynamic_ind this) (this_n_variable_ind this);
             (error_no, entry, error_bb) = check_lengths n_input (this_n_variable_dep this)
         in case lower_nodes ap ndebug graph_obj of
              None \<Rightarrow> None
            | Some (Inl (m, merge)) \<Rightarrow>
                Some (msg @ m,
                  assign_module this
                    (snd (build_module (this_function_name this) entry error_bb merge)))
            | Some (Inr (merge, graph_ir)) \<Rightarrow>
                (case store_dependents graph_ir 0 (dependent_vec graph_obj) merge of
                   None \<Rightarrow> None
                 | Some merge1 \<Rightarrow>
                     finish_function ndebug verifyFunction msg this error_no entry error_bb
                       merge1)))"

text \<open>
  The method, with the object it is called on as an argument and, beside the message, as
  a result.  \<open>ap\<close> is the arithmetic of \<^verbatim>\<open>llvm::APFloat\<close>, with which the builder folds
  constants; \<open>ndebug\<close> tells whether the file is compiled with \<^verbatim>\<open>NDEBUG\<close>, and
  \<open>verifyFunction\<close> is LLVM's verifier, true when it finds an error.  \<open>None\<close> is a failed
  assertion or undefined behaviour.
\<close>

definition from_graph :: "apfloat \<Rightarrow> bool \<Rightarrow> (llvm_function \<Rightarrow> bool) \<Rightarrow> llvm_ir \<Rightarrow> cpp_graph
    \<Rightarrow> (string \<times> llvm_ir) option" where
  "from_graph ap ndebug verifyFunction this graph_obj =
     (let msg = ''llvm_ir::from_graph: '' in
      if length (discrete_name_vec graph_obj) \<noteq> 0
      then Some (msg @ ''graph_obj.discrete_name_vec_size() != 0'', this)
      else if length (atomic_name_vec graph_obj) \<noteq> 0
      then Some (msg @ ''graph_obj.atomic_name_vec_size() != 0'', this)
      else if length (print_text_vec graph_obj) \<noteq> 0
      then Some (msg @ ''graph_obj.print_text_vec_size() != 0'', this)
      else if function_name graph_obj = []
      then Some (msg @ ''graph_obj.function_name_get() is empty'',
                 assign_scalars this graph_obj)
      else build_function ap ndebug verifyFunction msg (assign_scalars this graph_obj) graph_obj)"

section \<open>The values of the nodes of a graph\<close>

text \<open>
  The value of every node index, in one table: slot 0 is unused, then the dynamic
  independents read from the first \<^verbatim>\<open>n_dynamic_ind\<close> places of the input, then the
  variable independents read from the places that follow, then the constants, then the
  result of each operator in the order of the sequence, computed from the slots of its
  arguments.  Beside its value a slot tells whether the value is known when the function
  is built: the constants of the graph are, the independents are not, and the result of
  an operator is when the builder folds it, which it does for an arithmetic operator all
  of whose arguments are known.  Such a result is computed by \<^verbatim>\<open>APFloat\<close> when the
  function is built, every other result by the machine when the function runs.
\<close>

type_synonym node_slot = "bool \<times> double"

definition binary_value :: "(double \<Rightarrow> double \<Rightarrow> double) \<Rightarrow> (double \<Rightarrow> double \<Rightarrow> double)
    \<Rightarrow> node_slot \<Rightarrow> node_slot \<Rightarrow> node_slot" where
  "binary_value folded run a b =
     (if fst a \<and> fst b then (True, folded (snd a) (snd b)) else (False, run (snd a) (snd b)))"

definition operator_value :: "apfloat \<Rightarrow> fpu \<Rightarrow> itr_value \<Rightarrow> node_slot list \<Rightarrow> node_slot" where
  "operator_value ap u itr_val tbl =
     (let a = tbl ! (arg_node itr_val ! 0); b = tbl ! (arg_node itr_val ! 1)
      in case op_enum itr_val of
           acosh_graph_op \<Rightarrow> (False, cmath_acosh u (snd a))
         | add_graph_op \<Rightarrow> binary_value (ap_add ap) (fadd u) a b
         | azmul_graph_op \<Rightarrow>
             (let product = binary_value (ap_multiply ap) (fmul u) a b
              in (fst product, if fcmp_oeq (snd a) pos_zero then pos_zero else snd product))
         | div_graph_op \<Rightarrow> binary_value (ap_divide ap) (fdiv u) a b
         | mul_graph_op \<Rightarrow> binary_value (ap_multiply ap) (fmul u) a b
         | neg_graph_op \<Rightarrow> (fst a, fneg (snd a))
         | sub_graph_op \<Rightarrow> binary_value (ap_subtract ap) (fsub u) a b
         | other_graph_op s \<Rightarrow> (False, pos_zero))"

definition independent_values :: "cpp_graph \<Rightarrow> double list \<Rightarrow> double list" where
  "independent_values graph_obj input =
     take (n_dynamic_ind graph_obj) input
     @ take (n_variable_ind graph_obj) (drop (n_dynamic_ind graph_obj) input)"

definition node_table :: "apfloat \<Rightarrow> fpu \<Rightarrow> cpp_graph \<Rightarrow> double list \<Rightarrow> node_slot list" where
  "node_table ap u graph_obj input =
     foldl (\<lambda>tbl itr_val. tbl @ [operator_value ap u itr_val tbl])
       (map (Pair False) (pos_zero # independent_values graph_obj input)
        @ map (Pair True) (constant_vec graph_obj))
       (operator_vec graph_obj)"

definition node_value :: "apfloat \<Rightarrow> fpu \<Rightarrow> cpp_graph \<Rightarrow> double list \<Rightarrow> nat \<Rightarrow> double" where
  "node_value ap u graph_obj input node = snd (node_table ap u graph_obj input ! node)"

text \<open>The node index of the \<open>k\<close>-th operator of the sequence.\<close>

definition operator_node :: "cpp_graph \<Rightarrow> nat \<Rightarrow> nat" where
  "operator_node graph_obj k =
     1 + n_dynamic_ind graph_obj + n_variable_ind graph_obj + length (constant_vec graph_obj) + k"

subsection \<open>Straight-line code\<close>

text \<open>Instructions none of which is a terminator, from position \<open>k\<close> of the block on.\<close>

fun exec_straight :: "fpu \<Rightarrow> rvalue list \<Rightarrow> string \<Rightarrow> nat \<Rightarrow> instr list \<Rightarrow> regs \<Rightarrow> memory
    \<Rightarrow> (regs \<times> memory) option" where
  "exec_straight u args bb k [] rs m = Some (rs, m)"
| "exec_straight u args bb k (i # rest) rs m =
     (case exec_instr u args rs m i of
        None \<Rightarrow> None
      | Some (r, m') \<Rightarrow> exec_straight u args bb (Suc k) rest (rs((bb, k) \<mapsto> r)) m')"

text \<open>What holds of the block \<^verbatim>\<open>merge_bb\<close> and of \<^verbatim>\<open>graph_ir\<close> while the nodes
  are lowered: the block runs without a store, and the value that \<^verbatim>\<open>graph_ir\<close> has
  for a node index, an instruction of the block or a constant, evaluates to the node's
  slot of the table \<open>tbl\<close> and is a constant exactly when the slot says so.\<close>

definition lowered :: "fpu \<Rightarrow> rvalue list \<Rightarrow> regs \<Rightarrow> memory \<Rightarrow> basic_block \<times> graph_ir_t
    \<Rightarrow> node_slot list \<Rightarrow> bool" where
  "lowered u args rs0 m st tbl \<longleftrightarrow>
     (\<exists>rs. exec_straight u args ''merge_bb'' 0 (fst st) rs0 m = Some (rs, m)
        \<and> length (snd st) = length tbl
        \<and> (\<forall>k v. k < length tbl \<longrightarrow> snd st ! k = Some v \<longrightarrow>
              (\<forall>bb j. v = Instruction bb j \<longrightarrow> bb = ''merge_bb'' \<and> j < length (fst st))
              \<and> eval_value args rs v = Some (Double (snd (tbl ! k)))
              \<and> (fst (tbl ! k) \<longleftrightarrow> constant_fp v \<noteq> None)))"



text \<open>The registers once the entry block has run: the two comparisons, their
  disjunction \<^verbatim>\<open>error_len\<close>, and \<^verbatim>\<open>error_no\<close>.\<close>

definition entry_regs :: "bool \<Rightarrow> bool \<Rightarrow> regs" where
  "entry_regs error_len_input error_len_output =
     [(''EntryBlock'', 0) \<mapsto> Int1 error_len_input,
      (''EntryBlock'', Suc 0) \<mapsto> Int1 error_len_output,
      (''EntryBlock'', Suc (Suc 0)) \<mapsto> Int1 (error_len_input \<or> error_len_output),
      (''EntryBlock'', Suc (Suc (Suc 0))) \<mapsto>
         Int32 (if error_len_input \<or> error_len_output then 1 else 0)]"


section \<open>Well-formed graphs and validation\<close>

text \<open>
  The checks of a graph in the order in which the specification lists them, with the
  specification's names for the errors: a discrete-function table that is not empty, an
  atomic-call table that is not empty, a print table that is not empty, an empty name.
\<close>

datatype validation_error = UnsupportedFeature string | MissingName

definition spec_validate :: "cpp_graph \<Rightarrow> validation_error option" where
  "spec_validate graph_obj =
     (if discrete_name_vec graph_obj \<noteq> [] then Some (UnsupportedFeature ''discrete'')
      else if atomic_name_vec graph_obj \<noteq> [] then Some (UnsupportedFeature ''atomic'')
      else if print_text_vec graph_obj \<noteq> [] then Some (UnsupportedFeature ''print'')
      else if function_name graph_obj = [] then Some MissingName
      else None)"

text \<open>The table of the graph that a feature is kept in, and the message that names
  the error.\<close>

definition feature_table :: "string \<Rightarrow> string" where
  "feature_table kind = kind @ (if kind = ''print'' then ''_text_vec'' else ''_name_vec'')"

fun error_message :: "validation_error \<Rightarrow> string" where
  "error_message (UnsupportedFeature kind) =
     ''llvm_ir::from_graph: graph_obj.'' @ feature_table kind @ ''_size() != 0''"
| "error_message MissingName =
     ''llvm_ir::from_graph: graph_obj.function_name_get() is empty''"

text \<open>The operators that \<^verbatim>\<open>from_graph\<close> lowers, and the number of arguments of each.\<close>

fun supported :: "graph_op_enum \<Rightarrow> bool" where
  "supported (other_graph_op s) = False"
| "supported op = True"

fun arity :: "graph_op_enum \<Rightarrow> nat" where
  "arity acosh_graph_op = 1"
| "arity neg_graph_op = 1"
| "arity (other_graph_op s) = 0"
| "arity op = 2"

text \<open>The operator of a graph with \<open>n\<close> nodes before it (slot 0 counted) has one
  result, no strings, as many arguments as its arity, and every argument names one of
  the earlier nodes; and so for the operators that follow.\<close>

definition node_ok :: "nat \<Rightarrow> itr_value \<Rightarrow> bool" where
  "node_ok n itr_val =
     (length (arg_node itr_val) = arity (op_enum itr_val) \<and> n_result itr_val = 1
      \<and> str_index itr_val = [] \<and> list_all (\<lambda>a. 0 < a \<and> a < n) (arg_node itr_val))"

fun nodes_ok :: "nat \<Rightarrow> itr_value list \<Rightarrow> bool" where
  "nodes_ok n [] = True"
| "nodes_ok n (itr_val # rest) = (node_ok n itr_val \<and> nodes_ok (Suc n) rest)"

text \<open>The verifier finds an error in the function that the object holds.\<close>

definition verification_failed :: "(llvm_function \<Rightarrow> bool) \<Rightarrow> llvm_ir \<Rightarrow> bool" where
  "verification_failed verifyFunction ir =
     (case this_module_ir ir of
        None \<Rightarrow> False
      | Some mdl \<Rightarrow>
          (case defined_functions (globals mdl) of
             [f] \<Rightarrow> verifyFunction f
           | _ \<Rightarrow> False))"

text \<open>No entry of \<^verbatim>\<open>graph_ir\<close> but the one at index 0 is a null pointer.\<close>

definition no_null :: "graph_ir_t \<Rightarrow> bool" where
  "no_null graph_ir = (\<forall>k. 0 < k \<and> k < length graph_ir \<longrightarrow> graph_ir ! k \<noteq> None)"

section \<open>The IEEE 754 product\<close>










section \<open>\<^verbatim>\<open>FunCheck.cpp\<close>\<close>

text \<open>
  The function object \<^verbatim>\<open>Fun<Type, Vector>\<close> of the example is generic in the type of its
  scalars; it uses the comparison of a scalar with zero, \<^verbatim>\<open>exp\<close> and the unary minus.
\<close>

record 'a scalar_type =
  ge_zero :: "'a \<Rightarrow> bool"
  exp_of :: "'a \<Rightarrow> 'a"
  minus_of :: "'a \<Rightarrow> 'a"

definition Fun :: "'a scalar_type \<Rightarrow> nat \<Rightarrow> 'a list \<Rightarrow> 'a list" where
  "Fun T n x =
     map (\<lambda>i. if ge_zero T (x ! i) then exp_of T (x ! i) else exp_of T (minus_of T (x ! i)))
       [0..<n]"

text \<open>\<^verbatim>\<open>Type = double\<close>, with the real numbers for the doubles.\<close>

definition double_type :: "real scalar_type" where
  "double_type = \<lparr>ge_zero = (\<lambda>x. 0 \<le> x), exp_of = exp, minus_of = uminus\<rparr>"

text \<open>
  Modelled from the spec: the recording type \<^verbatim>\<open>AD<double>\<close>, \<^verbatim>\<open>Independent\<close>,
  \<^verbatim>\<open>ADFun\<close> and \<^verbatim>\<open>FunCheck\<close> are not among the sources.  A tape is the operation
  sequence executed during one pass over instrumented inputs, and captures exactly the
  control-flow path taken: an instrumented scalar is its value together with the
  operations that computed it from the independents; a comparison looks at the value and
  records nothing.
\<close>

datatype operation = Independent_op nat | Exp_op operation | Minus_op operation

type_synonym AD = "real \<times> operation"

definition AD_type :: "AD scalar_type" where
  "AD_type = \<lparr>ge_zero = (\<lambda>X. 0 \<le> fst X),
               exp_of = (\<lambda>X. (exp (fst X), Exp_op (snd X))),
               minus_of = (\<lambda>X. (- fst X, Minus_op (snd X)))\<rparr>"

text \<open>Modelled from the spec: \<^verbatim>\<open>Independent(X)\<close> starts a recording with the elements
  of \<open>X\<close> as the independent variables.\<close>

definition Independent :: "real list \<Rightarrow> AD list" where
  "Independent X = map (\<lambda>j. (X ! j, Independent_op j)) [0..<length X]"

text \<open>Modelled from the spec: \<^verbatim>\<open>f(X, Y)\<close> stops the recording and stores the operation
  sequence of \<open>Y\<close>; the stored sequence is evaluated at a point \<open>x\<close>.\<close>

type_synonym ADFun = "operation list"

definition store_sequence :: "AD list \<Rightarrow> ADFun" where
  "store_sequence Y = map snd Y"

fun replay :: "real list \<Rightarrow> operation \<Rightarrow> real" where
  "replay x (Independent_op j) = x ! j"
| "replay x (Exp_op e) = exp (replay x e)"
| "replay x (Minus_op e) = - replay x e"

definition Forward :: "ADFun \<Rightarrow> real list \<Rightarrow> real list" where
  "Forward f x = map (replay x) f"

text \<open>Modelled from the spec: the check passes when every component of the candidate
  is within \<open>absolute_tol + relative_tol * \<bar>reference\<bar>\<close> of the reference.\<close>

fun near_all :: "real \<Rightarrow> real \<Rightarrow> real list \<Rightarrow> real list \<Rightarrow> bool" where
  "near_all a r (c # cs) (y # ys) = (\<bar>c - y\<bar> \<le> a + r * \<bar>y\<bar> \<and> near_all a r cs ys)"
| "near_all a r cs ys = True"

definition FunCheck :: "ADFun \<Rightarrow> (real list \<Rightarrow> real list) \<Rightarrow> real list \<Rightarrow> real \<Rightarrow> real \<Rightarrow> bool" where
  "FunCheck f g x a r = near_all a r (Forward f x) (g x)"

text \<open>\<^verbatim>\<open>FunCheckCases\<close>: the recording of \<open>G\<close> at \<open>X\<close>, and the function \<open>g\<close> on
  doubles, both for \<open>n = 2\<close>.\<close>

definition record_at :: "real list \<Rightarrow> ADFun" where
  "record_at X = store_sequence (Fun AD_type 2 (Independent X))"

definition g_double :: "real list \<Rightarrow> real list" where
  "g_double x = Fun double_type 2 x"

section \<open>An example graph\<close>

text \<open>An object before the call of \<^verbatim>\<open>from_graph\<close>, and the graph of
  \<open>f(p, x) = (p + x, - x, azmul(0, p))\<close> with one dynamic independent \<open>p\<close>, one variable
  independent \<open>x\<close> and the constant 0: node 1 is \<open>p\<close>, node 2 is \<open>x\<close>, node 3 is the
  constant, and nodes 4, 5 and 6 are the three operators.\<close>

definition empty_ir :: llvm_ir where
  "empty_ir = \<lparr>this_n_dynamic_ind = 0, this_n_variable_ind = 0, this_n_variable_dep = 0,
     this_function_name = [], this_context_ir = None, this_module_ir = None\<rparr>"

definition example_graph :: cpp_graph where
  "example_graph =
     \<lparr>function_name = ''example'', discrete_name_vec = [], atomic_name_vec = [],
      print_text_vec = [], n_dynamic_ind = 1, n_variable_ind = 1, constant_vec = [pos_zero],
      operator_vec =
        [\<lparr>op_enum = neg_graph_op, str_index = [], n_result = 1, arg_node = [2]\<rparr>,
         \<lparr>op_enum = azmul_graph_op, str_index = [], n_result = 1, arg_node = [3, 1]\<rparr>,
         \<lparr>op_enum = add_graph_op, str_index = [], n_result = 1, arg_node = [1, 2]\<rparr>],
      dependent_vec = [6, 4, 5]\<rparr>"

text \<open>The doubles 1.5, 2, -2 and 3.\<close>

definition d_1_5 :: double where "d_1_5 = 0x3FF8000000000000"
definition d_2 :: double where "d_2 = 0x4000000000000000"
definition d_minus_2 :: double where "d_minus_2 = 0xC000000000000000"

text \<open>The object after \<^verbatim>\<open>from_graph\<close> on the example graph.\<close>

definition example_ir :: "apfloat \<Rightarrow> llvm_ir" where
  "example_ir ap = snd (the (from_graph ap False (\<lambda>f. False) empty_ir example_graph))"



text \<open>A graph that fails three of the checks: it has a discrete function, an atomic
  function and no name.\<close>

definition rejected_graph :: cpp_graph where
  "rejected_graph =
     \<lparr>function_name = [], discrete_name_vec = [''step''], atomic_name_vec = [''solve''],
      print_text_vec = [], n_dynamic_ind = 0, n_variable_ind = 1, constant_vec = [],
      operator_vec = [], dependent_vec = [1]\<rparr>"

text \<open>The example graph with \<open>sin\<close>, which is not lowered, for its second
  operator.\<close>

definition sin_graph :: cpp_graph where
  "sin_graph = example_graph\<lparr>operator_vec :=
     [\<lparr>op_enum = neg_graph_op, str_index = [], n_result = 1, arg_node = [2]\<rparr>,
      \<lparr>op_enum = other_graph_op ''sin'', str_index = [], n_result = 1, arg_node = [4]\<rparr>,
      \<lparr>op_enum = add_graph_op, str_index = [], n_result = 1, arg_node = [1, 2]\<rparr>]\<rparr>"

text \<open>The graph of \<open>f(a, b) = azmul(a, b)\<close> on two variable independents: node 1 is
  \<open>a\<close>, node 2 is \<open>b\<close>, and node 3 is the operator.  Then the object after
  \<^verbatim>\<open>from_graph\<close> on that graph.\<close>

definition azmul_graph :: cpp_graph where
  "azmul_graph =
     \<lparr>function_name = ''azmul_example'', discrete_name_vec = [], atomic_name_vec = [],
      print_text_vec = [], n_dynamic_ind = 0, n_variable_ind = 2, constant_vec = [],
      operator_vec =
        [\<lparr>op_enum = azmul_graph_op, str_index = [], n_result = 1, arg_node = [1, 2]\<rparr>],
      dependent_vec = [3]\<rparr>"

definition azmul_ir :: "apfloat \<Rightarrow> llvm_ir" where
  "azmul_ir ap = snd (the (from_graph ap False (\<lambda>f. False) empty_ir azmul_graph))"

text \<open>The graph of \<open>f(x1, x2) = (c1 * c2, x1 * x2, azmul(c1, c2))\<close> with the two
  constants \<open>c1\<close> and \<open>c2\<close> given: nodes 1 and 2 are the variables, nodes 3 and 4 the
  constants, and nodes 5, 6 and 7 the operators.  All arguments of the first and of the
  third operator are constants.  Then the object after \<^verbatim>\<open>from_graph\<close> on that
  graph.\<close>

definition constant_graph :: "double \<Rightarrow> double \<Rightarrow> cpp_graph" where
  "constant_graph c1 c2 =
     \<lparr>function_name = ''constant_example'', discrete_name_vec = [], atomic_name_vec = [],
      print_text_vec = [], n_dynamic_ind = 0, n_variable_ind = 2, constant_vec = [c1, c2],
      operator_vec =
        [\<lparr>op_enum = mul_graph_op, str_index = [], n_result = 1, arg_node = [3, 4]\<rparr>,
         \<lparr>op_enum = mul_graph_op, str_index = [], n_result = 1, arg_node = [1, 2]\<rparr>,
         \<lparr>op_enum = azmul_graph_op, str_index = [], n_result = 1, arg_node = [3, 4]\<rparr>],
      dependent_vec = [5, 6, 7]\<rparr>"

definition constant_ir :: "apfloat \<Rightarrow> double \<Rightarrow> double \<Rightarrow> llvm_ir" where
  "constant_ir ap c1 c2 =
     snd (the (from_graph ap False (\<lambda>f. False) empty_ir (constant_graph c1 c2)))"



section \<open>Running the generated code\<close>

lemma sint_APInt32: "n < 2 ^ 31 \<Longrightarrow> sint (APInt32 n) = int n"
  unfolding APInt32_def
  by (simp add: signed_of_nat signed_take_bit_int_eq_self)

lemma eval_value_agree:
  "(\<And>bb k. v = Instruction bb k \<Longrightarrow> rs' (bb, k) = rs (bb, k))
     \<Longrightarrow> eval_value args rs' v = eval_value args rs v"
  by (cases v) auto

lemma exec_straight_append:
  "exec_straight u args bb k (xs @ ys) rs m =
     (case exec_straight u args bb k xs rs m of
        None \<Rightarrow> None
      | Some (rs', m') \<Rightarrow> exec_straight u args bb (k + length xs) ys rs' m')"
  by (induction xs arbitrary: k rs m) (auto split: option.splits)

lemma exec_block_step:
  "exec_instr u args rs m x = Some (r, m1)
     \<Longrightarrow> exec_block u args bb k (x # rest) rs m =
         exec_block u args bb (Suc k) rest (rs((bb, k) \<mapsto> r)) m1"
  by (cases x) simp_all

lemma exec_block_append:
  "exec_straight u args bb k xs rs m = Some (rs', m')
     \<Longrightarrow> exec_block u args bb k (xs @ ys) rs m = exec_block u args bb (k + length xs) ys rs' m'"
proof (induction xs arbitrary: k rs m)
  case Nil
  then show ?case by simp
next
  case (Cons x xs)
  from Cons.prems obtain r m1 where
    x: "exec_instr u args rs m x = Some (r, m1)" and
    rest: "exec_straight u args bb (Suc k) xs (rs((bb, k) \<mapsto> r)) m1 = Some (rs', m')"
    by (auto split: option.splits)
  have "exec_block u args bb k ((x # xs) @ ys) rs m =
        exec_block u args bb (Suc k) (xs @ ys) (rs((bb, k) \<mapsto> r)) m1"
    using exec_block_step [OF x] by simp
  also have "\<dots> = exec_block u args bb (Suc k + length xs) ys rs' m'"
    by (rule Cons.IH [OF rest])
  finally show ?case by simp
qed

lemma exec_straight_frame:
  "exec_straight u args bb k xs rs m = Some (rs', m') \<Longrightarrow> bb' \<noteq> bb \<or> j < k
     \<Longrightarrow> rs' (bb', j) = rs (bb', j)"
proof (induction xs arbitrary: k rs m)
  case Nil
  then show ?case by simp
next
  case (Cons x xs)
  from Cons.prems obtain r m1 where
    x: "exec_instr u args rs m x = Some (r, m1)" and
    rest: "exec_straight u args bb (Suc k) xs (rs((bb, k) \<mapsto> r)) m1 = Some (rs', m')"
    by (auto split: option.splits)
  from Cons.prems(2) have "bb' \<noteq> bb \<or> j < Suc k" by auto
  from Cons.IH [OF rest this] Cons.prems(2) show ?case by auto
qed


lemma eval_value_upd:
  "(\<And>j. v = Instruction bb j \<Longrightarrow> j < k)
     \<Longrightarrow> eval_value args (rs((bb, k) \<mapsto> r)) v = eval_value args rs v"
  by (cases v) auto

lemma eval_value_upd2:
  "(\<And>j. v = Instruction bb j \<Longrightarrow> j < k)
     \<Longrightarrow> eval_value args (rs((bb, k) \<mapsto> r, (bb, Suc k) \<mapsto> r')) v = eval_value args rs v"
  by (cases v) auto


lemma loweredD:
  assumes "lowered u args rs0 m (merge, graph_ir) tbl"
  shows "\<exists>rs. exec_straight u args ''merge_bb'' 0 merge rs0 m = Some (rs, m)
     \<and> length graph_ir = length tbl
     \<and> (\<forall>k v. k < length tbl \<longrightarrow> graph_ir ! k = Some v \<longrightarrow>
           eval_value args rs v = Some (Double (snd (tbl ! k))))
     \<and> (\<forall>k j. k < length tbl \<longrightarrow> graph_ir ! k = Some (Instruction ''merge_bb'' j) \<longrightarrow>
           j < length merge)
     \<and> (\<forall>k bb j. k < length tbl \<longrightarrow> graph_ir ! k = Some (Instruction bb j) \<longrightarrow>
           bb = ''merge_bb'')
     \<and> (\<forall>k v. k < length tbl \<longrightarrow> graph_ir ! k = Some v \<longrightarrow>
           (fst (tbl ! k) \<longleftrightarrow> constant_fp v \<noteq> None))"
  using assms unfolding lowered_def fst_conv snd_conv by blast

lemma lowered_extend:
  assumes inv: "lowered u args rs0 m (merge, graph_ir) tbl"
    and step: "\<And>rs. exec_straight u args ''merge_bb'' 0 merge rs0 m = Some (rs, m)
        \<Longrightarrow> \<exists>rs'. exec_straight u args ''merge_bb'' (length merge) new rs m = Some (rs', m)
              \<and> eval_value args rs' v = Some (Double x)"
    and fresh: "\<And>bb j. v = Instruction bb j \<Longrightarrow> bb = ''merge_bb'' \<and> j < length merge + length new"
    and const: "c \<longleftrightarrow> constant_fp v \<noteq> None"
  shows "lowered u args rs0 m (merge @ new, graph_ir @ [Some v]) (tbl @ [(c, x)])"
proof -
  from loweredD [OF inv] obtain rs where
    run: "exec_straight u args ''merge_bb'' 0 merge rs0 m = Some (rs, m)" and
    len: "length graph_ir = length tbl" and
    val': "\<forall>k v. k < length tbl \<longrightarrow> graph_ir ! k = Some v \<longrightarrow>
        eval_value args rs v = Some (Double (snd (tbl ! k)))" and
    pos': "\<forall>k j. k < length tbl \<longrightarrow> graph_ir ! k = Some (Instruction ''merge_bb'' j)
        \<longrightarrow> j < length merge" and
    blk': "\<forall>k bb j. k < length tbl \<longrightarrow> graph_ir ! k = Some (Instruction bb j)
        \<longrightarrow> bb = ''merge_bb''" and
    cst': "\<forall>k v. k < length tbl \<longrightarrow> graph_ir ! k = Some v \<longrightarrow>
        (fst (tbl ! k) \<longleftrightarrow> constant_fp v \<noteq> None)"
    by blast
  have val: "eval_value args rs v = Some (Double (snd (tbl ! k)))"
    if "k < length tbl" "graph_ir ! k = Some v" for k v
    using val' that by blast
  have pos: "j < length merge"
    if "k < length tbl" "graph_ir ! k = Some v" "v = Instruction ''merge_bb'' j" for k v j
    using pos' that by blast
  have blk: "bb = ''merge_bb''"
    if "k < length tbl" "graph_ir ! k = Some v" "v = Instruction bb j" for k v bb j
    using blk' that by blast
  have cst: "fst (tbl ! k) \<longleftrightarrow> constant_fp v \<noteq> None"
    if "k < length tbl" "graph_ir ! k = Some v" for k v
    using cst' that by blast
  from step [OF run] obtain rs' where
    run': "exec_straight u args ''merge_bb'' (length merge) new rs m = Some (rs', m)" and
    v: "eval_value args rs' v = Some (Double x)"
    by blast
  have all: "exec_straight u args ''merge_bb'' 0 (merge @ new) rs0 m = Some (rs', m)"
    by (simp add: exec_straight_append run run')
  have old: "eval_value args rs' w = Some (Double (snd (tbl ! k)))"
    if "k < length tbl" "graph_ir ! k = Some w" for k w
  proof -
    have "eval_value args rs' w = eval_value args rs w"
    proof (rule eval_value_agree)
      fix bb j assume w: "w = Instruction bb j"
      from blk [OF that w] have bb: "bb = ''merge_bb''" .
      with pos [OF that] w have "j < length merge" by simp
      then show "rs' (bb, j) = rs (bb, j)"
        using exec_straight_frame [OF run'] by blast
    qed
    with val [OF that] show ?thesis by simp
  qed
  show ?thesis
    unfolding lowered_def
  proof (intro exI [of _ rs'] conjI allI impI)
    show "exec_straight u args ''merge_bb'' 0 (fst (merge @ new, graph_ir @ [Some v])) rs0 m
          = Some (rs', m)"
      using all by simp
    show "length (snd (merge @ new, graph_ir @ [Some v])) = length (tbl @ [(c, x)])"
      using len by simp
  next
    fix k w bb j
    assume k: "k < length (tbl @ [(c, x)])"
      and w: "snd (merge @ new, graph_ir @ [Some v]) ! k = Some w"
      and i: "w = Instruction bb j"
    show "bb = ''merge_bb''"
    proof (cases "k < length tbl")
      case True
      with w len have "graph_ir ! k = Some w" by (simp add: nth_append)
      from blk [OF True this i] show ?thesis .
    next
      case False
      with k w len have "w = v" by (simp add: nth_append)
      with fresh i show ?thesis by blast
    qed
    show "j < length (fst (merge @ new, graph_ir @ [Some v]))"
    proof (cases "k < length tbl")
      case True
      with w len have g: "graph_ir ! k = Some w" by (simp add: nth_append)
      from blk [OF True g i] i pos [OF True g] show ?thesis by simp
    next
      case False
      with k w len have "w = v" by (simp add: nth_append)
      with fresh i show ?thesis by auto
    qed
  next
    fix k w
    assume k: "k < length (tbl @ [(c, x)])"
      and w: "snd (merge @ new, graph_ir @ [Some v]) ! k = Some w"
    show "eval_value args rs' w = Some (Double (snd ((tbl @ [(c, x)]) ! k)))"
    proof (cases "k < length tbl")
      case True
      with w len have "graph_ir ! k = Some w" by (simp add: nth_append)
      from old [OF True this] True show ?thesis by (simp add: nth_append)
    next
      case False
      with k w len have "w = v" "k = length tbl" by (simp_all add: nth_append)
      with v show ?thesis by simp
    qed
    show "fst ((tbl @ [(c, x)]) ! k) \<longleftrightarrow> constant_fp w \<noteq> None"
    proof (cases "k < length tbl")
      case True
      with w len have "graph_ir ! k = Some w" by (simp add: nth_append)
      from cst [OF True this] True show ?thesis by (simp add: nth_append)
    next
      case False
      with k w len have "w = v" "k = length tbl" by (simp_all add: nth_append)
      with const show ?thesis by simp
    qed
  qed
qed

lemma constant_fp_Some: "constant_fp v = Some d \<Longrightarrow> v = ConstantFP d"
  by (cases v) simp_all

lemma lowered_operand:
  assumes inv: "lowered u args rs0 m (merge, graph_ir) tbl"
    and a: "operand graph_ir arg j = Some a"
    and run: "exec_straight u args ''merge_bb'' 0 merge rs0 m = Some (rs, m)"
  shows "eval_value args rs a = Some (Double (snd (tbl ! (arg ! j))))"
    and "a = Instruction bb i \<Longrightarrow> i < length merge"
proof -
  from loweredD [OF inv] obtain rs1 where
    run1: "exec_straight u args ''merge_bb'' 0 merge rs0 m = Some (rs1, m)" and
    len: "length graph_ir = length tbl" and
    val1: "\<forall>k v. k < length tbl \<longrightarrow> graph_ir ! k = Some v \<longrightarrow>
        eval_value args rs1 v = Some (Double (snd (tbl ! k)))" and
    pos: "\<forall>k j. k < length tbl \<longrightarrow> graph_ir ! k = Some (Instruction ''merge_bb'' j)
        \<longrightarrow> j < length merge" and
    blk: "\<forall>k bb j. k < length tbl \<longrightarrow> graph_ir ! k = Some (Instruction bb j)
        \<longrightarrow> bb = ''merge_bb''"
    by blast
  from run run1 have "rs1 = rs" by simp
  with val1 have val: "\<forall>k v. k < length tbl \<longrightarrow> graph_ir ! k = Some v \<longrightarrow>
        eval_value args rs v = Some (Double (snd (tbl ! k)))" by simp
  from a have k: "arg ! j < length tbl" and g: "graph_ir ! (arg ! j) = Some a"
    using len by (auto simp: operand_def split: if_splits)
  from val k g show "eval_value args rs a = Some (Double (snd (tbl ! (arg ! j))))" by blast
  show "i < length merge" if "a = Instruction bb i"
    using that blk pos k g by blast
qed

lemma lowered_operand_constant:
  assumes inv: "lowered u args rs0 m (merge, graph_ir) tbl"
    and a: "operand graph_ir arg j = Some a"
  shows "fst (tbl ! (arg ! j)) \<longleftrightarrow> constant_fp a \<noteq> None"
    and "constant_fp a = Some d \<Longrightarrow> snd (tbl ! (arg ! j)) = d"
proof -
  from loweredD [OF inv] obtain rs where
    run: "exec_straight u args ''merge_bb'' 0 merge rs0 m = Some (rs, m)" and
    len: "length graph_ir = length tbl" and
    cst: "\<forall>k v. k < length tbl \<longrightarrow> graph_ir ! k = Some v \<longrightarrow>
        (fst (tbl ! k) \<longleftrightarrow> constant_fp v \<noteq> None)"
    by blast
  from a have k: "arg ! j < length tbl" and g: "graph_ir ! (arg ! j) = Some a"
    using len by (auto simp: operand_def split: if_splits)
  from cst k g show "fst (tbl ! (arg ! j)) \<longleftrightarrow> constant_fp a \<noteq> None" by blast
  show "snd (tbl ! (arg ! j)) = d" if "constant_fp a = Some d"
    using lowered_operand(1) [OF inv a run] constant_fp_Some [OF that] by simp
qed

lemma lowered_load:
  assumes inv: "lowered u (call_args li lo) rs0 m (merge, graph_ir) tbl"
    and i: "offset + i < length (input_buf m)" "offset + i < 2 ^ 31"
  shows "lowered u (call_args li lo) rs0 m (load_independent offset i (merge, graph_ir))
           (tbl @ [(False, input_buf m ! (offset + i))])"
proof -
  let ?new = "[GEP (Argument 1) (ConstantInt (APInt32 (offset + i))),
               Load (Instruction ''merge_bb'' (length merge))]"
  have "lowered u (call_args li lo) rs0 m
          (merge @ ?new, graph_ir @ [Some (Instruction ''merge_bb'' (Suc (length merge)))])
          (tbl @ [(False, input_buf m ! (offset + i))])"
  proof (rule lowered_extend [OF inv])
    fix rs
    show "\<exists>rs'. exec_straight u (call_args li lo) ''merge_bb'' (length merge) ?new rs m =
            Some (rs', m) \<and>
          eval_value (call_args li lo) rs' (Instruction ''merge_bb'' (Suc (length merge))) =
            Some (Double (input_buf m ! (offset + i)))"
      using i by (simp add: call_args_def sint_APInt32 flip: of_nat_add)
  qed simp_all
  then show ?thesis
    by (simp add: load_independent_def insert_instr_def)
qed

lemma CreateFBinOp_simps:
  "constant_fp a = Some x \<Longrightarrow> constant_fp b = Some y
     \<Longrightarrow> CreateFBinOp folded create a b merge = (ConstantFP (folded x y), merge)"
  "constant_fp a = None \<or> constant_fp b = None
     \<Longrightarrow> CreateFBinOp folded create a b merge =
         (Instruction ''merge_bb'' (length merge), merge @ [create a b])"
  by (auto simp: CreateFBinOp_def insert_instr_def split: option.splits)

lemma CreateFNeg_simps:
  "constant_fp a = Some x \<Longrightarrow> CreateFNeg a merge = (ConstantFP (fneg x), merge)"
  "constant_fp a = None
     \<Longrightarrow> CreateFNeg a merge = (Instruction ''merge_bb'' (length merge), merge @ [FNeg a])"
  by (auto simp: CreateFNeg_def insert_instr_def split: option.splits)

lemma binary_case_simps:
  assumes "operand graph_ir arg 0 = Some a" "operand graph_ir arg 1 = Some b"
  shows "constant_fp a = Some x \<Longrightarrow> constant_fp b = Some y
      \<Longrightarrow> binary_case folded create arg (merge, graph_ir) =
           Some (Inr (merge, graph_ir @ [Some (ConstantFP (folded x y))]))"
    and "constant_fp a = None \<or> constant_fp b = None
      \<Longrightarrow> binary_case folded create arg (merge, graph_ir) =
           Some (Inr (merge @ [create a b],
                      graph_ir @ [Some (Instruction ''merge_bb'' (length merge))]))"
  using assms by (simp_all add: binary_case_def CreateFBinOp_simps)

lemma neg_case_simps:
  assumes "operand graph_ir arg 0 = Some a"
  shows "constant_fp a = Some x
      \<Longrightarrow> neg_case arg (merge, graph_ir) =
           Some (Inr (merge, graph_ir @ [Some (ConstantFP (fneg x))]))"
    and "constant_fp a = None
      \<Longrightarrow> neg_case arg (merge, graph_ir) =
           Some (Inr (merge @ [FNeg a],
                      graph_ir @ [Some (Instruction ''merge_bb'' (length merge))]))"
  using assms by (simp_all add: neg_case_def CreateFNeg_simps)

lemma azmul_case_simps:
  assumes "operand graph_ir arg 0 = Some a" "operand graph_ir arg 1 = Some b"
  shows "constant_fp a = Some x \<Longrightarrow> constant_fp b = Some y
      \<Longrightarrow> azmul_case folded arg (merge, graph_ir) =
           Some (Inr (merge, graph_ir @
             [Some (ConstantFP (if fcmp_oeq x pos_zero then pos_zero else folded x y))]))"
    and "constant_fp a = Some x \<Longrightarrow> constant_fp b = None
      \<Longrightarrow> azmul_case folded arg (merge, graph_ir) =
           Some (Inr (merge @ [FMul a b,
                   Select (ConstantInt1 (fcmp_oeq x pos_zero)) (ConstantFP pos_zero)
                     (Instruction ''merge_bb'' (length merge))],
                 graph_ir @ [Some (Instruction ''merge_bb'' (Suc (length merge)))]))"
    and "constant_fp a = None
      \<Longrightarrow> azmul_case folded arg (merge, graph_ir) =
           Some (Inr (merge @ [FMul a b, FCmpOEQ a (ConstantFP pos_zero),
                   Select (Instruction ''merge_bb'' (Suc (length merge))) (ConstantFP pos_zero)
                     (Instruction ''merge_bb'' (length merge))],
                 graph_ir @ [Some (Instruction ''merge_bb'' (Suc (Suc (length merge))))]))"
  using assms
  by (simp_all add: azmul_case_def CreateFBinOp_simps CreateFCmpOEQ_def CreateSelect_def
      insert_instr_def fp_zero_def)

lemma binary_case_operands:
  "binary_case folded create arg (merge, graph_ir) = Some (Inr st')
     \<Longrightarrow> \<exists>a b. operand graph_ir arg 0 = Some a \<and> operand graph_ir arg 1 = Some b"
  by (auto simp: binary_case_def split: option.splits)

lemma azmul_case_operands:
  "azmul_case folded arg (merge, graph_ir) = Some (Inr st')
     \<Longrightarrow> \<exists>a b. operand graph_ir arg 0 = Some a \<and> operand graph_ir arg 1 = Some b"
  by (auto simp: azmul_case_def split: option.splits)

lemma neg_case_operands:
  "neg_case arg (merge, graph_ir) = Some (Inr st') \<Longrightarrow> \<exists>a. operand graph_ir arg 0 = Some a"
  by (auto simp: neg_case_def split: option.splits)


lemma lowered_binary:
  assumes inv: "lowered u args rs0 m (merge, graph_ir) tbl"
    and low: "binary_case folded create arg (merge, graph_ir) = Some (Inr st')"
    and sem: "\<And>a b rs m x y. eval_value args rs a = Some (Double x) \<Longrightarrow>
        eval_value args rs b = Some (Double y) \<Longrightarrow>
        exec_instr u args rs m (create a b) = Some (Double (run x y), m)"
  shows "lowered u args rs0 m st'
           (tbl @ [binary_value folded run (tbl ! (arg ! 0)) (tbl ! (arg ! 1))])"
proof -
  from binary_case_operands [OF low] obtain a b where
    a: "operand graph_ir arg 0 = Some a" and b: "operand graph_ir arg 1 = Some b"
    by blast
  note ca = lowered_operand_constant [OF inv a] and cb = lowered_operand_constant [OF inv b]
  show ?thesis
  proof (cases "constant_fp a \<noteq> None \<and> constant_fp b \<noteq> None")
    case True
    then obtain x y where x: "constant_fp a = Some x" and y: "constant_fp b = Some y"
      by auto
    from low binary_case_simps(1) [OF a b x y]
    have st': "st' = (merge @ [], graph_ir @ [Some (ConstantFP (folded x y))])"
      by simp
    have slot: "binary_value folded run (tbl ! (arg ! 0)) (tbl ! (arg ! 1)) = (True, folded x y)"
      using ca(1) cb(1) ca(2) [OF x] cb(2) [OF y] x y by (simp add: binary_value_def)
    show ?thesis
      unfolding st' slot by (rule lowered_extend [OF inv]) simp_all
  next
    case False
    then have none: "constant_fp a = None \<or> constant_fp b = None" by simp
    from low binary_case_simps(2) [OF a b none]
    have st': "st' = (merge @ [create a b],
        graph_ir @ [Some (Instruction ''merge_bb'' (length merge))])"
      by simp
    have slot: "binary_value folded run (tbl ! (arg ! 0)) (tbl ! (arg ! 1))
        = (False, run (snd (tbl ! (arg ! 0))) (snd (tbl ! (arg ! 1))))"
      using ca(1) cb(1) none by (auto simp: binary_value_def)
    show ?thesis
      unfolding st' slot
    proof (rule lowered_extend [OF inv])
      fix rs
      assume run: "exec_straight u args ''merge_bb'' 0 merge rs0 m = Some (rs, m)"
      note va = lowered_operand(1) [OF inv a run] and vb = lowered_operand(1) [OF inv b run]
      show "\<exists>rs'. exec_straight u args ''merge_bb'' (length merge) [create a b] rs m
              = Some (rs', m) \<and>
            eval_value args rs' (Instruction ''merge_bb'' (length merge)) =
              Some (Double (run (snd (tbl ! (arg ! 0))) (snd (tbl ! (arg ! 1)))))"
        by (simp add: sem [OF va vb])
    qed simp_all
  qed
qed

lemma lowered_acosh:
  assumes inv: "lowered u args rs0 m (merge, graph_ir) tbl"
    and low: "acosh_case arg (merge, graph_ir) = Some (Inr st')"
  shows "lowered u args rs0 m st' (tbl @ [(False, cmath_acosh u (snd (tbl ! (arg ! 0))))])"
proof -
  from low obtain a where a: "operand graph_ir arg 0 = Some a"
    and st': "st' = (merge @ [Call ''acosh'' [a]],
        graph_ir @ [Some (Instruction ''merge_bb'' (length merge))])"
    by (auto simp: acosh_case_def insert_instr_def split: option.splits)
  show ?thesis
    unfolding st'
  proof (rule lowered_extend [OF inv])
    fix rs
    assume run: "exec_straight u args ''merge_bb'' 0 merge rs0 m = Some (rs, m)"
    note va = lowered_operand(1) [OF inv a run]
    show "\<exists>rs'. exec_straight u args ''merge_bb'' (length merge) [Call ''acosh'' [a]] rs m
            = Some (rs', m) \<and>
          eval_value args rs' (Instruction ''merge_bb'' (length merge)) =
            Some (Double (cmath_acosh u (snd (tbl ! (arg ! 0)))))"
      by (simp add: va)
  qed simp_all
qed

lemma lowered_neg:
  assumes inv: "lowered u args rs0 m (merge, graph_ir) tbl"
    and low: "neg_case arg (merge, graph_ir) = Some (Inr st')"
  shows "lowered u args rs0 m st' (tbl @ [(fst (tbl ! (arg ! 0)), fneg (snd (tbl ! (arg ! 0))))])"
proof -
  from neg_case_operands [OF low] obtain a where a: "operand graph_ir arg 0 = Some a"
    by blast
  note ca = lowered_operand_constant [OF inv a]
  show ?thesis
  proof (cases "constant_fp a")
    case (Some x)
    from low neg_case_simps(1) [OF a Some]
    have st': "st' = (merge @ [], graph_ir @ [Some (ConstantFP (fneg x))])"
      by simp
    have slot: "(fst (tbl ! (arg ! 0)), fneg (snd (tbl ! (arg ! 0)))) = (True, fneg x)"
      using ca(1) ca(2) [OF Some] Some by simp
    show ?thesis
      unfolding st' slot by (rule lowered_extend [OF inv]) simp_all
  next
    case None
    from low neg_case_simps(2) [OF a None]
    have st': "st' = (merge @ [FNeg a],
        graph_ir @ [Some (Instruction ''merge_bb'' (length merge))])"
      by simp
    have slot: "(fst (tbl ! (arg ! 0)), fneg (snd (tbl ! (arg ! 0))))
        = (False, fneg (snd (tbl ! (arg ! 0))))"
      using ca(1) None by simp
    show ?thesis
      unfolding st' slot
    proof (rule lowered_extend [OF inv])
      fix rs
      assume run: "exec_straight u args ''merge_bb'' 0 merge rs0 m = Some (rs, m)"
      note va = lowered_operand(1) [OF inv a run]
      show "\<exists>rs'. exec_straight u args ''merge_bb'' (length merge) [FNeg a] rs m
              = Some (rs', m) \<and>
            eval_value args rs' (Instruction ''merge_bb'' (length merge)) =
              Some (Double (fneg (snd (tbl ! (arg ! 0)))))"
        by (simp add: va)
    qed simp_all
  qed
qed

lemma lowered_azmul:
  assumes inv: "lowered u args rs0 m (merge, graph_ir) tbl"
    and low: "azmul_case folded arg (merge, graph_ir) = Some (Inr st')"
  shows "lowered u args rs0 m st'
           (tbl @ [(fst (binary_value folded (fmul u) (tbl ! (arg ! 0)) (tbl ! (arg ! 1))),
                    if fcmp_oeq (snd (tbl ! (arg ! 0))) pos_zero then pos_zero
                    else snd (binary_value folded (fmul u) (tbl ! (arg ! 0)) (tbl ! (arg ! 1))))])"
proof -
  let ?a = "snd (tbl ! (arg ! 0))" and ?b = "snd (tbl ! (arg ! 1))"
  let ?slot = "(fst (binary_value folded (fmul u) (tbl ! (arg ! 0)) (tbl ! (arg ! 1))),
     if fcmp_oeq ?a pos_zero then pos_zero
     else snd (binary_value folded (fmul u) (tbl ! (arg ! 0)) (tbl ! (arg ! 1))))"
  from azmul_case_operands [OF low] obtain a b where
    a: "operand graph_ir arg 0 = Some a" and b: "operand graph_ir arg 1 = Some b"
    by blast
  note ca = lowered_operand_constant [OF inv a] and cb = lowered_operand_constant [OF inv b]
  consider (both) x y where "constant_fp a = Some x" "constant_fp b = Some y"
    | (first) x where "constant_fp a = Some x" "constant_fp b = None"
    | (none) "constant_fp a = None"
    by (cases "constant_fp a"; cases "constant_fp b") auto
  then show ?thesis
  proof cases
    case both
    from low azmul_case_simps(1) [OF a b both]
    have st': "st' = (merge @ [], graph_ir @
        [Some (ConstantFP (if fcmp_oeq x pos_zero then pos_zero else folded x y))])"
      by simp
    have slot: "?slot = (True, if fcmp_oeq x pos_zero then pos_zero else folded x y)"
      using ca(1) cb(1) ca(2) [OF both(1)] cb(2) [OF both(2)] both
      by (simp add: binary_value_def)
    show ?thesis
      unfolding st' slot by (rule lowered_extend [OF inv]) simp_all
  next
    case first
    from low azmul_case_simps(2) [OF a b first]
    have st': "st' = (merge @ [FMul a b,
                   Select (ConstantInt1 (fcmp_oeq x pos_zero)) (ConstantFP pos_zero)
                     (Instruction ''merge_bb'' (length merge))],
                 graph_ir @ [Some (Instruction ''merge_bb'' (Suc (length merge)))])"
      by simp
    have slot: "?slot = (False, if fcmp_oeq x pos_zero then pos_zero else fmul u x ?b)"
      using ca(1) cb(1) ca(2) [OF first(1)] first by (simp add: binary_value_def)
    show ?thesis
      unfolding st' slot
    proof (rule lowered_extend [OF inv])
      fix rs
      assume run: "exec_straight u args ''merge_bb'' 0 merge rs0 m = Some (rs, m)"
      note va = lowered_operand(1) [OF inv a run] and vb = lowered_operand(1) [OF inv b run]
      show "\<exists>rs'. exec_straight u args ''merge_bb'' (length merge)
              [FMul a b,
               Select (ConstantInt1 (fcmp_oeq x pos_zero)) (ConstantFP pos_zero)
                 (Instruction ''merge_bb'' (length merge))] rs m = Some (rs', m) \<and>
            eval_value args rs' (Instruction ''merge_bb'' (Suc (length merge))) =
              Some (Double (if fcmp_oeq x pos_zero then pos_zero else fmul u x ?b))"
        using va vb ca(2) [OF first(1)] by simp
    qed simp_all
  next
    case none
    from low azmul_case_simps(3) [OF a b none]
    have st': "st' = (merge @ [FMul a b, FCmpOEQ a (ConstantFP pos_zero),
                   Select (Instruction ''merge_bb'' (Suc (length merge))) (ConstantFP pos_zero)
                     (Instruction ''merge_bb'' (length merge))],
                 graph_ir @ [Some (Instruction ''merge_bb'' (Suc (Suc (length merge))))])"
      by simp
    have slot: "?slot = (False, if fcmp_oeq ?a pos_zero then pos_zero else fmul u ?a ?b)"
      using ca(1) none by (simp add: binary_value_def)
    show ?thesis
      unfolding st' slot
    proof (rule lowered_extend [OF inv])
      fix rs
      assume run: "exec_straight u args ''merge_bb'' 0 merge rs0 m = Some (rs, m)"
      note va = lowered_operand(1) [OF inv a run] and vb = lowered_operand(1) [OF inv b run]
      have a': "eval_value args (rs((''merge_bb'', length merge) \<mapsto> r)) a = eval_value args rs a"
        for r by (rule eval_value_upd) (rule lowered_operand(2) [OF inv a run])
      show "\<exists>rs'. exec_straight u args ''merge_bb'' (length merge)
              [FMul a b, FCmpOEQ a (ConstantFP pos_zero),
               Select (Instruction ''merge_bb'' (Suc (length merge))) (ConstantFP pos_zero)
                 (Instruction ''merge_bb'' (length merge))] rs m = Some (rs', m) \<and>
            eval_value args rs' (Instruction ''merge_bb'' (Suc (Suc (length merge)))) =
              Some (Double (if fcmp_oeq ?a pos_zero then pos_zero else fmul u ?a ?b))"
        by (simp add: va vb a')
    qed simp_all
  qed
qed

lemma operator_value_simps:
  "op_enum itr_val = acosh_graph_op \<Longrightarrow>
     operator_value ap u itr_val tbl = (False, cmath_acosh u (snd (tbl ! (arg_node itr_val ! 0))))"
  "op_enum itr_val = add_graph_op \<Longrightarrow>
     operator_value ap u itr_val tbl =
       binary_value (ap_add ap) (fadd u) (tbl ! (arg_node itr_val ! 0)) (tbl ! (arg_node itr_val ! 1))"
  "op_enum itr_val = azmul_graph_op \<Longrightarrow>
     operator_value ap u itr_val tbl =
       (fst (binary_value (ap_multiply ap) (fmul u) (tbl ! (arg_node itr_val ! 0))
               (tbl ! (arg_node itr_val ! 1))),
        if fcmp_oeq (snd (tbl ! (arg_node itr_val ! 0))) pos_zero then pos_zero
        else snd (binary_value (ap_multiply ap) (fmul u) (tbl ! (arg_node itr_val ! 0))
               (tbl ! (arg_node itr_val ! 1))))"
  "op_enum itr_val = div_graph_op \<Longrightarrow>
     operator_value ap u itr_val tbl =
       binary_value (ap_divide ap) (fdiv u) (tbl ! (arg_node itr_val ! 0)) (tbl ! (arg_node itr_val ! 1))"
  "op_enum itr_val = mul_graph_op \<Longrightarrow>
     operator_value ap u itr_val tbl =
       binary_value (ap_multiply ap) (fmul u) (tbl ! (arg_node itr_val ! 0))
         (tbl ! (arg_node itr_val ! 1))"
  "op_enum itr_val = neg_graph_op \<Longrightarrow>
     operator_value ap u itr_val tbl =
       (fst (tbl ! (arg_node itr_val ! 0)), fneg (snd (tbl ! (arg_node itr_val ! 0))))"
  "op_enum itr_val = sub_graph_op \<Longrightarrow>
     operator_value ap u itr_val tbl =
       binary_value (ap_subtract ap) (fsub u) (tbl ! (arg_node itr_val ! 0))
         (tbl ! (arg_node itr_val ! 1))"
  by (simp_all add: operator_value_def Let_def)

lemma lowering_switch_simps:
  "op_enum itr_val = acosh_graph_op \<Longrightarrow>
     lowering_switch ap itr_val st = acosh_case (arg_node itr_val) st"
  "op_enum itr_val = add_graph_op \<Longrightarrow>
     lowering_switch ap itr_val st = binary_case (ap_add ap) FAdd (arg_node itr_val) st"
  "op_enum itr_val = azmul_graph_op \<Longrightarrow>
     lowering_switch ap itr_val st = azmul_case (ap_multiply ap) (arg_node itr_val) st"
  "op_enum itr_val = div_graph_op \<Longrightarrow>
     lowering_switch ap itr_val st = binary_case (ap_divide ap) FDiv (arg_node itr_val) st"
  "op_enum itr_val = mul_graph_op \<Longrightarrow>
     lowering_switch ap itr_val st = binary_case (ap_multiply ap) FMul (arg_node itr_val) st"
  "op_enum itr_val = neg_graph_op \<Longrightarrow>
     lowering_switch ap itr_val st = neg_case (arg_node itr_val) st"
  "op_enum itr_val = sub_graph_op \<Longrightarrow>
     lowering_switch ap itr_val st = binary_case (ap_subtract ap) FSub (arg_node itr_val) st"
  "op_enum itr_val = other_graph_op s \<Longrightarrow>
     lowering_switch ap itr_val st = Some (Inl (unsupported_operator (other_graph_op s)))"
  by (simp_all add: lowering_switch_def Let_def)

lemma lowered_switch:
  assumes inv: "lowered u args rs0 m st tbl"
    and low: "lowering_switch ap itr_val st = Some (Inr st')"
  shows "lowered u args rs0 m st' (tbl @ [operator_value ap u itr_val tbl])"
proof -
  obtain merge graph_ir where st: "st = (merge, graph_ir)" by (cases st)
  note inv' = inv [unfolded st]
  note low' = low [unfolded st]
  show ?thesis
  proof (cases "op_enum itr_val")
    case acosh_graph_op
    with low' have "acosh_case (arg_node itr_val) (merge, graph_ir) = Some (Inr st')"
      by (simp add: lowering_switch_simps)
    from lowered_acosh [OF inv' this] show ?thesis
      by (simp add: operator_value_simps acosh_graph_op)
  next
    case add_graph_op
    with low' have
      "binary_case (ap_add ap) FAdd (arg_node itr_val) (merge, graph_ir) = Some (Inr st')"
      by (simp add: lowering_switch_simps)
    from lowered_binary [OF inv' this, of "fadd u"] show ?thesis
      by (simp add: operator_value_simps add_graph_op)
  next
    case azmul_graph_op
    with low' have
      "azmul_case (ap_multiply ap) (arg_node itr_val) (merge, graph_ir) = Some (Inr st')"
      by (simp add: lowering_switch_simps)
    from lowered_azmul [OF inv' this] show ?thesis
      unfolding operator_value_simps(3) [OF azmul_graph_op] .
  next
    case div_graph_op
    with low' have
      "binary_case (ap_divide ap) FDiv (arg_node itr_val) (merge, graph_ir) = Some (Inr st')"
      by (simp add: lowering_switch_simps)
    from lowered_binary [OF inv' this, of "fdiv u"] show ?thesis
      by (simp add: operator_value_simps div_graph_op)
  next
    case mul_graph_op
    with low' have
      "binary_case (ap_multiply ap) FMul (arg_node itr_val) (merge, graph_ir) = Some (Inr st')"
      by (simp add: lowering_switch_simps)
    from lowered_binary [OF inv' this, of "fmul u"] show ?thesis
      by (simp add: operator_value_simps mul_graph_op)
  next
    case neg_graph_op
    with low' have "neg_case (arg_node itr_val) (merge, graph_ir) = Some (Inr st')"
      by (simp add: lowering_switch_simps)
    from lowered_neg [OF inv' this] show ?thesis
      by (simp add: operator_value_simps neg_graph_op)
  next
    case sub_graph_op
    with low' have
      "binary_case (ap_subtract ap) FSub (arg_node itr_val) (merge, graph_ir) = Some (Inr st')"
      by (simp add: lowering_switch_simps)
    from lowered_binary [OF inv' this, of "fsub u"] show ?thesis
      by (simp add: operator_value_simps sub_graph_op)
  next
    case (other_graph_op s)
    with low' show ?thesis by (simp add: lowering_switch_simps)
  qed
qed

lemma lower_operator_Inr:
  "lower_operator ap ndebug itr_val st = Some (Inr st')
     \<Longrightarrow> lowering_switch ap itr_val st = Some (Inr st')"
  by (auto simp: lower_operator_def split: option.splits sum.splits if_splits)

lemma lowered_operators:
  "lower_operators ap ndebug ops st = Some (Inr st') \<Longrightarrow> lowered u args rs0 m st tbl
     \<Longrightarrow> lowered u args rs0 m st'
           (foldl (\<lambda>tbl itr_val. tbl @ [operator_value ap u itr_val tbl]) tbl ops)"
proof (induction ops arbitrary: st tbl)
  case Nil
  then show ?case by simp
next
  case (Cons itr_val ops)
  from Cons.prems(1) obtain st1 where
    one: "lower_operator ap ndebug itr_val st = Some (Inr st1)" and
    rest: "lower_operators ap ndebug ops st1 = Some (Inr st')"
    by (auto split: option.splits sum.splits)
  from lowered_switch [OF Cons.prems(2) lower_operator_Inr [OF one]]
  have "lowered u args rs0 m st1 (tbl @ [operator_value ap u itr_val tbl])" .
  from Cons.IH [OF rest this] show ?case by simp
qed

lemma lowered_loads:
  assumes inv: "lowered u (call_args li lo) rs0 m st tbl"
    and n: "offset + n \<le> length (input_buf m)" "offset + n \<le> 2 ^ 31"
  shows "lowered u (call_args li lo) rs0 m (fold (load_independent offset) [0..<n] st)
           (tbl @ map (Pair False) (take n (drop offset (input_buf m))))"
  using n
proof (induction n)
  case 0
  with inv show ?case by simp
next
  case (Suc n)
  then have IH: "lowered u (call_args li lo) rs0 m (fold (load_independent offset) [0..<n] st)
           (tbl @ map (Pair False) (take n (drop offset (input_buf m))))"
    by simp
  obtain merge graph_ir where st: "fold (load_independent offset) [0..<n] st = (merge, graph_ir)"
    by (cases "fold (load_independent offset) [0..<n] st")
  from Suc.prems have i: "offset + n < length (input_buf m)" "offset + n < 2 ^ 31" by simp_all
  from lowered_load [OF IH [unfolded st] i]
  have "lowered u (call_args li lo) rs0 m (load_independent offset n (merge, graph_ir))
          ((tbl @ map (Pair False) (take n (drop offset (input_buf m))))
            @ [(False, input_buf m ! (offset + n))])" .
  moreover have "take (Suc n) (drop offset (input_buf m)) =
      take n (drop offset (input_buf m)) @ [input_buf m ! (offset + n)]"
    using i by (simp add: take_Suc_conv_app_nth)
  ultimately show ?case by (simp add: st)
qed

lemma lowered_constants:
  assumes inv: "lowered u args rs0 m (merge, graph_ir) tbl"
  shows "lowered u args rs0 m (merge, graph_ir @ map (\<lambda>c. Some (ConstantFP c)) cs)
           (tbl @ map (Pair True) cs)"
proof (induction cs rule: rev_induct)
  case Nil
  from inv show ?case by simp
next
  case (snoc c cs)
  have "lowered u args rs0 m
      (merge @ [], (graph_ir @ map (\<lambda>c. Some (ConstantFP c)) cs) @ [Some (ConstantFP c)])
      ((tbl @ map (Pair True) cs) @ [(True, c)])"
    by (rule lowered_extend [OF snoc]) simp_all
  then show ?case by simp
qed

lemma lowered_init:
  "lowered u args rs0 m ([], [None]) [(False, pos_zero)]"
  by (simp add: lowered_def)

lemma lower_nodes_lowered:
  assumes low: "lower_nodes ap ndebug graph_obj = Some (Inr st)"
    and len: "n_dynamic_ind graph_obj + n_variable_ind graph_obj \<le> length (input_buf m)"
    and small: "n_dynamic_ind graph_obj + n_variable_ind graph_obj \<le> 2 ^ 31"
  shows "lowered u (call_args li lo) rs0 m st (node_table ap u graph_obj (input_buf m))"
proof -
  let ?d = "n_dynamic_ind graph_obj" and ?v = "n_variable_ind graph_obj"
  let ?st1 = "fold (load_independent 0) [0..<?d] ([], [None])"
  let ?st2 = "fold (load_independent ?d) [0..<?v] ?st1"
  have 1: "lowered u (call_args li lo) rs0 m ?st1
      ([(False, pos_zero)] @ map (Pair False) (take ?d (drop 0 (input_buf m))))"
    using len small by (intro lowered_loads lowered_init) simp_all
  have 2: "lowered u (call_args li lo) rs0 m ?st2
      (([(False, pos_zero)] @ map (Pair False) (take ?d (drop 0 (input_buf m))))
        @ map (Pair False) (take ?v (drop ?d (input_buf m))))"
    using len small by (intro lowered_loads 1) simp_all
  have 3: "lowered u (call_args li lo) rs0 m
      (fst ?st2, snd ?st2 @ map (\<lambda>c. Some (ConstantFP c)) (constant_vec graph_obj))
      ((([(False, pos_zero)] @ map (Pair False) (take ?d (drop 0 (input_buf m))))
        @ map (Pair False) (take ?v (drop ?d (input_buf m))))
        @ map (Pair True) (constant_vec graph_obj))"
  proof (rule lowered_constants)
    show "lowered u (call_args li lo) rs0 m (fst ?st2, snd ?st2)
      (([(False, pos_zero)] @ map (Pair False) (take ?d (drop 0 (input_buf m))))
        @ map (Pair False) (take ?v (drop ?d (input_buf m))))"
      using 2 by simp
  qed
  from low have "lower_operators ap ndebug (operator_vec graph_obj)
      (fst ?st2, snd ?st2 @ map (\<lambda>c. Some (ConstantFP c)) (constant_vec graph_obj)) = Some (Inr st)"
    by (simp add: lower_nodes_def Let_def)
  from lowered_operators [OF this 3] show ?thesis
    by (simp add: node_table_def independent_values_def)
qed


lemma take_Suc_update: "i < length xs \<Longrightarrow> take (Suc i) (xs[i := x]) = take i xs @ [x]"
  by (simp add: take_Suc_conv_app_nth)

lemma store_dependents_run:
  assumes "store_dependents graph_ir i deps merge = Some merge'"
    and "exec_straight u (call_args li lo) ''merge_bb'' 0 merge rs0 m0 = Some (rs, m)"
    and "\<forall>k v. k < length graph_ir \<longrightarrow> graph_ir ! k = Some v \<longrightarrow>
           eval_value (call_args li lo) rs v = Some (Double (val k))
           \<and> (\<forall>j. v = Instruction ''merge_bb'' j \<longrightarrow> j < length merge)"
    and "i + length deps \<le> length (output_buf m)" and "i + length deps \<le> 2 ^ 31"
  shows "\<exists>rs'. exec_straight u (call_args li lo) ''merge_bb'' 0 merge' rs0 m0 =
           Some (rs', m\<lparr>output_buf := take i (output_buf m) @ map val deps
                          @ drop (i + length deps) (output_buf m)\<rparr>)"
  using assms
proof (induction deps arbitrary: i merge rs m)
  case Nil
  then show ?case by simp
next
  case (Cons node_index rest)
  let ?args = "call_args li lo"
  let ?k = "length merge"
  from Cons.prems(1) obtain v where
    v: "node_index < length graph_ir" "graph_ir ! node_index = Some v" and
    rest: "store_dependents graph_ir (Suc i) rest
             (merge @ [GEP (Argument 3) (ConstantInt (APInt32 i)),
                       Store v (Instruction ''merge_bb'' ?k)]) = Some merge'"
    by (auto simp: insert_instr_def split: option.splits if_splits)
  from Cons.prems(3) v have
    ev: "eval_value ?args rs v = Some (Double (val node_index))" and
    vk: "\<And>j. v = Instruction ''merge_bb'' j \<Longrightarrow> j < ?k"
    by blast+
  from Cons.prems(4,5) have i: "i < length (output_buf m)" "i < 2 ^ 31" by simp_all
  let ?rs1 = "rs((''merge_bb'', ?k) \<mapsto> Pointer OutputBuffer (int i),
                 (''merge_bb'', Suc ?k) \<mapsto> NoValue)"
  let ?m1 = "m\<lparr>output_buf := (output_buf m)[i := val node_index]\<rparr>"
  have ev1: "eval_value ?args (rs((''merge_bb'', ?k) \<mapsto> r)) v = Some (Double (val node_index))"
    for r using eval_value_upd [of v "''merge_bb''" ?k ?args rs r] vk ev by simp
  have two: "exec_straight u ?args ''merge_bb'' ?k
      [GEP (Argument 3) (ConstantInt (APInt32 i)), Store v (Instruction ''merge_bb'' ?k)] rs m
      = Some (?rs1, ?m1)"
    using i by (simp add: call_args_def sint_APInt32 ev1 [unfolded call_args_def])
  have run1: "exec_straight u ?args ''merge_bb'' 0
      (merge @ [GEP (Argument 3) (ConstantInt (APInt32 i)), Store v (Instruction ''merge_bb'' ?k)])
      rs0 m0 = Some (?rs1, ?m1)"
    by (simp only: exec_straight_append Cons.prems(2) two option.case prod.case add_0)
  have inv1: "\<forall>k w. k < length graph_ir \<longrightarrow> graph_ir ! k = Some w \<longrightarrow>
      eval_value ?args ?rs1 w = Some (Double (val k))
      \<and> (\<forall>j. w = Instruction ''merge_bb'' j \<longrightarrow>
            j < length (merge @ [GEP (Argument 3) (ConstantInt (APInt32 i)),
                                 Store v (Instruction ''merge_bb'' ?k)]))"
  proof (intro allI impI)
    fix k w assume k: "k < length graph_ir" "graph_ir ! k = Some w"
    with Cons.prems(3) have
      a: "eval_value ?args rs w = Some (Double (val k))" and
      b: "\<And>j. w = Instruction ''merge_bb'' j \<Longrightarrow> j < ?k"
      by blast+
    have "eval_value ?args ?rs1 w = eval_value ?args rs w"
      by (rule eval_value_upd2) (rule b)
    with a b show "eval_value ?args ?rs1 w = Some (Double (val k))
      \<and> (\<forall>j. w = Instruction ''merge_bb'' j \<longrightarrow>
            j < length (merge @ [GEP (Argument 3) (ConstantInt (APInt32 i)),
                                 Store v (Instruction ''merge_bb'' ?k)]))"
      by auto
  qed
  from Cons.prems(4,5) have len1: "Suc i + length rest \<le> length (output_buf ?m1)"
    "Suc i + length rest \<le> 2 ^ 31" by simp_all
  from Cons.IH [OF rest run1 inv1 len1] obtain rs' where
    "exec_straight u ?args ''merge_bb'' 0 merge' rs0 m0 =
       Some (rs', ?m1\<lparr>output_buf := take (Suc i) (output_buf ?m1)
          @ map val rest @ drop (Suc i + length rest) (output_buf ?m1)\<rparr>)"
    by blast
  moreover have "take (Suc i) (output_buf ?m1) @ map val rest
        @ drop (Suc i + length rest) (output_buf ?m1)
      = take i (output_buf m) @ map val (node_index # rest)
        @ drop (i + length (node_index # rest)) (output_buf m)"
    using i by (simp add: take_Suc_update)
  ultimately show ?case by simp
qed

lemma check_lengths_eq:
  "check_lengths n_input n_dep =
     (Instruction ''EntryBlock'' 3,
      [ICmpNE (Argument 0) (ConstantInt (APInt32 n_input)),
       ICmpNE (Argument 2) (ConstantInt (APInt32 n_dep)),
       OrI (Instruction ''EntryBlock'' 0) (Instruction ''EntryBlock'' 1),
       ZExt (Instruction ''EntryBlock'' 2),
       CondBr (Instruction ''EntryBlock'' 2) ''error_bb'' ''merge_bb''],
      [Ret (Instruction ''EntryBlock'' 3)])"
  by (simp add: check_lengths_def insert_instr_def)

lemma entry_regs_error_no:
  "entry_regs e1 e2 (''EntryBlock'', 3) = Some (Int32 (if e1 \<or> e2 then 1 else 0))"
  by (simp add: entry_regs_def eval_nat_numeral)

lemma entry_regs_other: "bb \<noteq> ''EntryBlock'' \<Longrightarrow> entry_regs e1 e2 (bb, k) = None"
  by (simp add: entry_regs_def)

lemma call_function_shape:
  assumes f: "basic_blocks f =
      [(''EntryBlock'', [ICmpNE (Argument 0) (ConstantInt ei),
        ICmpNE (Argument 2) (ConstantInt eo),
        OrI (Instruction ''EntryBlock'' 0) (Instruction ''EntryBlock'' 1),
        ZExt (Instruction ''EntryBlock'' 2),
        CondBr (Instruction ''EntryBlock'' 2) ''error_bb'' ''merge_bb'']),
       (''error_bb'', [Ret (Instruction ''EntryBlock'' 3)]),
       (''merge_bb'', body)]"
  shows "li \<noteq> ei \<or> lo \<noteq> eo \<Longrightarrow>
           call_function u (Suc (Suc fuel)) f (call_args li lo) m = Some (Int32 1, m)"
    and "li = ei \<Longrightarrow> lo = eo \<Longrightarrow>
           exec_block u (call_args li lo) ''merge_bb'' 0 body (entry_regs False False) m =
             Some (Return r, rs', m') \<Longrightarrow>
           call_function u (Suc (Suc fuel)) f (call_args li lo) m = Some (r, m')"
    and "li = ei \<Longrightarrow> lo = eo \<Longrightarrow>
           exec_block u (call_args li lo) ''merge_bb'' 0 body (entry_regs False False) m = None \<Longrightarrow>
           call_function u (Suc (Suc fuel)) f (call_args li lo) m = None"
  by (simp_all add: call_function_def f call_args_def entry_regs_def)

lemma build_module_shape:
  "build_module name entry error_bb merge = (f, mdl)
     \<Longrightarrow> defined_functions (globals mdl) = [f]
       \<and> basic_blocks f = [(''EntryBlock'', entry), (''error_bb'', error_bb), (''merge_bb'', merge)]"
  by (auto simp: build_module_def Let_def getOrInsertFunction_def getFunction_def)

lemma assigned_scalars [simp]:
  "this_n_dynamic_ind (assign_scalars this graph_obj) = n_dynamic_ind graph_obj"
  "this_n_variable_ind (assign_scalars this graph_obj) = n_variable_ind graph_obj"
  "this_n_variable_dep (assign_scalars this graph_obj) = length (dependent_vec graph_obj)"
  "this_function_name (assign_scalars this graph_obj) = function_name graph_obj"
  "this_context_ir (assign_scalars this graph_obj) = this_context_ir this"
  "this_module_ir (assign_scalars this graph_obj) = this_module_ir this"
  by (simp_all add: assign_scalars_def)


lemma from_graph_success:
  assumes "from_graph ap ndebug verifyFunction this graph_obj = Some ([], ir)"
  shows "\<exists>merge graph_ir merge1 f mdl.
      lower_nodes ap ndebug graph_obj = Some (Inr (merge, graph_ir))
    \<and> store_dependents graph_ir 0 (dependent_vec graph_obj) merge = Some merge1
    \<and> build_module (function_name graph_obj)
         [ICmpNE (Argument 0) (ConstantInt (APInt32
             (size_t_add (n_dynamic_ind graph_obj) (n_variable_ind graph_obj)))),
          ICmpNE (Argument 2) (ConstantInt (APInt32 (length (dependent_vec graph_obj)))),
          OrI (Instruction ''EntryBlock'' 0) (Instruction ''EntryBlock'' 1),
          ZExt (Instruction ''EntryBlock'' 2),
          CondBr (Instruction ''EntryBlock'' 2) ''error_bb'' ''merge_bb'']
         [Ret (Instruction ''EntryBlock'' 3)]
         (merge1 @ [Ret (Instruction ''EntryBlock'' 3)]) = (f, mdl)
    \<and> ir = assign_module (assign_scalars this graph_obj) mdl
    \<and> \<not> verifyFunction f
    \<and> discrete_name_vec graph_obj = [] \<and> atomic_name_vec graph_obj = []
    \<and> print_text_vec graph_obj = [] \<and> function_name graph_obj \<noteq> []
    \<and> this_module_ir this = None"
  using assms
  by (auto simp: from_graph_def build_function_def finish_function_def
      check_lengths_eq Let_def
      insert_instr_def split: if_splits option.splits sum.splits prod.splits)

lemma APInt32_of_sint:
  assumes "sint w = int n"
  shows "w = APInt32 n" and "n < 2 ^ 31"
proof -
  have "w = word_of_int (sint w)" by simp
  also have "\<dots> = word_of_nat n" unfolding assms by simp
  finally show "w = APInt32 n" by (simp add: APInt32_def)
  have "sint w < 2 ^ (LENGTH(32) - 1)" by (rule sint_lt)
  with assms show "n < 2 ^ 31" by simp
qed

lemma call_artifact_success:
  assumes low: "from_graph ap ndebug verifyFunction this graph_obj = Some ([], ir)"
    and li: "sint len_input = int (n_dynamic_ind graph_obj + n_variable_ind graph_obj)"
    and lo: "sint len_output = int (length (dependent_vec graph_obj))"
    and inbuf: "n_dynamic_ind graph_obj + n_variable_ind graph_obj \<le> length input"
    and outbuf: "length (dependent_vec graph_obj) \<le> length output"
  shows "call_artifact u (Suc (Suc fuel)) ir len_input input len_output output =
    Some (0, map (node_value ap u graph_obj input) (dependent_vec graph_obj)
             @ drop (length (dependent_vec graph_obj)) output)"
proof -
  let ?n = "n_dynamic_ind graph_obj + n_variable_ind graph_obj"
  let ?deps = "dependent_vec graph_obj"
  let ?args = "call_args len_input len_output"
  let ?m = "\<lparr>input_buf = input, output_buf = output\<rparr>"
  let ?rs0 = "entry_regs False False"
  let ?tbl = "node_table ap u graph_obj input"
  let ?val = "node_value ap u graph_obj input"
  from low [THEN from_graph_success] obtain merge graph_ir merge1 f mdl where
    nodes: "lower_nodes ap ndebug graph_obj = Some (Inr (merge, graph_ir))" and
    stores: "store_dependents graph_ir 0 ?deps merge = Some merge1" and
    bm: "build_module (function_name graph_obj)
         [ICmpNE (Argument 0) (ConstantInt (APInt32
             (size_t_add (n_dynamic_ind graph_obj) (n_variable_ind graph_obj)))),
          ICmpNE (Argument 2) (ConstantInt (APInt32 (length ?deps))),
          OrI (Instruction ''EntryBlock'' 0) (Instruction ''EntryBlock'' 1),
          ZExt (Instruction ''EntryBlock'' 2),
          CondBr (Instruction ''EntryBlock'' 2) ''error_bb'' ''merge_bb'']
         [Ret (Instruction ''EntryBlock'' 3)]
         (merge1 @ [Ret (Instruction ''EntryBlock'' 3)]) = (f, mdl)" and
    ir: "ir = assign_module (assign_scalars this graph_obj) mdl"
    by blast
  note shape = build_module_shape [OF bm]
  from APInt32_of_sint [OF li] have n: "len_input = APInt32 ?n" "?n < 2 ^ 31" .
  from APInt32_of_sint [OF lo] have d: "len_output = APInt32 (length ?deps)"
    "length ?deps < 2 ^ 31" .
  have "?n < 2 ^ 64" using n(2) by (rule less_trans) simp
  then have sz: "size_t_add (n_dynamic_ind graph_obj) (n_variable_ind graph_obj) = ?n"
    by (simp add: size_t_add_def)
  have inv: "lowered u ?args ?rs0 ?m (merge, graph_ir) ?tbl"
    using lower_nodes_lowered [OF nodes, of ?m u len_input len_output ?rs0] inbuf n(2)
    by simp
  from loweredD [OF inv] obtain rs where
    run: "exec_straight u ?args ''merge_bb'' 0 merge ?rs0 ?m = Some (rs, ?m)" and
    len: "length graph_ir = length ?tbl" and
    val: "\<forall>k v. k < length ?tbl \<longrightarrow> graph_ir ! k = Some v \<longrightarrow>
        eval_value ?args rs v = Some (Double (snd (?tbl ! k)))" and
    pos: "\<forall>k j. k < length ?tbl \<longrightarrow> graph_ir ! k = Some (Instruction ''merge_bb'' j)
        \<longrightarrow> j < length merge"
    by blast
  have inv': "\<forall>k v. k < length graph_ir \<longrightarrow> graph_ir ! k = Some v \<longrightarrow>
           eval_value ?args rs v = Some (Double (?val k))
           \<and> (\<forall>j. v = Instruction ''merge_bb'' j \<longrightarrow> j < length merge)"
    using len val pos by (auto simp: node_value_def)
  from store_dependents_run [OF stores run inv'] outbuf d(2) obtain rs' where
    run': "exec_straight u ?args ''merge_bb'' 0 merge1 ?rs0 ?m =
      Some (rs', ?m\<lparr>output_buf := take 0 (output_buf ?m) @ map ?val ?deps
                          @ drop (0 + length ?deps) (output_buf ?m)\<rparr>)"
    by auto
  have "rs' (''EntryBlock'', 3) = ?rs0 (''EntryBlock'', 3)"
    using exec_straight_frame [OF run'] by simp
  then have ret: "rs' (''EntryBlock'', 3) = Some (Int32 0)"
    by (simp add: entry_regs_error_no)
  have blk: "exec_block u ?args ''merge_bb'' 0 (merge1 @ [Ret (Instruction ''EntryBlock'' 3)]) ?rs0 ?m
      = Some (Return (Int32 0), rs',
          ?m\<lparr>output_buf := map ?val ?deps @ drop (length ?deps) output\<rparr>)"
    using exec_block_append [OF run'] ret by simp
  have "call_function u (Suc (Suc fuel)) f ?args ?m =
      Some (Int32 0, ?m\<lparr>output_buf := map ?val ?deps @ drop (length ?deps) output\<rparr>)"
    using shape n(1) d(1) sz blk
    by (intro call_function_shape(2)) simp_all
  then show ?thesis
    using shape by (simp add: call_artifact_def ir assign_module_def)
qed

lemmas lowering_defs = from_graph_def build_function_def finish_function_def build_module_def
  check_lengths_eq assign_scalars_def assign_module_def Let_def getOrInsertFunction_def
  getFunction_def unique_name_def insert_instr_def lower_nodes_def load_independent_def
  lower_operator_def debug_switch_def lowering_switch_simps binary_case_def acosh_case_def
  neg_case_def azmul_case_def CreateFBinOp_def CreateFNeg_def CreateFCmpOEQ_def CreateSelect_def
  fp_zero_def operand_def size_t_add_def

lemma example_graph_lowers:
  "\<exists>ir. from_graph ap False (\<lambda>f. False) empty_ir example_graph = Some ([], ir)"
proof -
  have "map_option fst (from_graph ap False (\<lambda>f. False) empty_ir example_graph) = Some []"
    by (simp add: lowering_defs example_graph_def empty_ir_def)
  then show ?thesis
    by (cases "from_graph ap False (\<lambda>f. False) empty_ir example_graph") auto
qed

lemma example_graph_lengths:
  "sint (2 :: 32 word) = int (n_dynamic_ind example_graph + n_variable_ind example_graph)"
  "sint (3 :: 32 word) = int (length (dependent_vec example_graph))"
  by (simp_all add: example_graph_def)

lemma example_graph_values:
  "map (node_value ap u example_graph [d_1_5, d_2]) [6, 4, 5] =
     [fadd u d_1_5 d_2, d_minus_2, pos_zero]"
  by (simp add: node_value_def node_table_def example_graph_def independent_values_def
      operator_value_simps binary_value_def
      pos_zero_def fneg_def fcmp_oeq_def is_nan_def is_zero_def fp_magnitude_def
      d_1_5_def d_2_def d_minus_2_def)


text \<open>The function built for the example graph: the product of \<open>azmul(0, p)\<close> and the
  select are instructions, the comparison of the constant with zero is folded.\<close>

lemma example_function:
  "map_option (\<lambda>mdl. map basic_blocks (defined_functions (globals mdl)))
     (this_module_ir (example_ir ap)) =
   Some [[(''EntryBlock'',
           [ICmpNE (Argument 0) (ConstantInt 2), ICmpNE (Argument 2) (ConstantInt 3),
            OrI (Instruction ''EntryBlock'' 0) (Instruction ''EntryBlock'' 1),
            ZExt (Instruction ''EntryBlock'' 2),
            CondBr (Instruction ''EntryBlock'' 2) ''error_bb'' ''merge_bb'']),
          (''error_bb'', [Ret (Instruction ''EntryBlock'' 3)]),
          (''merge_bb'',
           [GEP (Argument 1) (ConstantInt 0), Load (Instruction ''merge_bb'' 0),
            GEP (Argument 1) (ConstantInt 1), Load (Instruction ''merge_bb'' 2),
            FNeg (Instruction ''merge_bb'' 3),
            FMul (ConstantFP pos_zero) (Instruction ''merge_bb'' 1),
            Select (ConstantInt1 True) (ConstantFP pos_zero) (Instruction ''merge_bb'' 5),
            FAdd (Instruction ''merge_bb'' 1) (Instruction ''merge_bb'' 3),
            GEP (Argument 3) (ConstantInt 0),
            Store (Instruction ''merge_bb'' 7) (Instruction ''merge_bb'' 8),
            GEP (Argument 3) (ConstantInt 1),
            Store (Instruction ''merge_bb'' 4) (Instruction ''merge_bb'' 10),
            GEP (Argument 3) (ConstantInt 2),
            Store (Instruction ''merge_bb'' 6) (Instruction ''merge_bb'' 12),
            Ret (Instruction ''EntryBlock'' 3)])]]"
  by (simp add: example_ir_def lowering_defs example_graph_def empty_ir_def APInt32_def
      fcmp_oeq_def is_nan_def is_zero_def fp_magnitude_def pos_zero_def)


section \<open>The messages of \<^verbatim>\<open>from_graph\<close>\<close>

lemma APInt32_size_t_add: "APInt32 (size_t_add a b) = word_of_nat (a + b)"
  unfolding APInt32_def size_t_add_def word_of_nat_eq_iff
  by (simp add: take_bit_eq_mod mod_mod_cancel)

lemma from_graph_blocks:
  assumes low: "from_graph ap ndebug verifyFunction this graph_obj = Some ([], ir)"
  shows "\<exists>f mdl body. this_module_ir ir = Some mdl \<and> defined_functions (globals mdl) = [f]
    \<and> basic_blocks f =
        [(''EntryBlock'',
          [ICmpNE (Argument 0) (ConstantInt
             (word_of_nat (n_dynamic_ind graph_obj + n_variable_ind graph_obj))),
           ICmpNE (Argument 2) (ConstantInt (word_of_nat (length (dependent_vec graph_obj)))),
           OrI (Instruction ''EntryBlock'' 0) (Instruction ''EntryBlock'' 1),
           ZExt (Instruction ''EntryBlock'' 2),
           CondBr (Instruction ''EntryBlock'' 2) ''error_bb'' ''merge_bb'']),
         (''error_bb'', [Ret (Instruction ''EntryBlock'' 3)]),
         (''merge_bb'', body)]"
proof -
  from low [THEN from_graph_success] obtain merge1 f mdl where
    bm: "build_module (function_name graph_obj)
         [ICmpNE (Argument 0) (ConstantInt (APInt32
             (size_t_add (n_dynamic_ind graph_obj) (n_variable_ind graph_obj)))),
          ICmpNE (Argument 2) (ConstantInt (APInt32 (length (dependent_vec graph_obj)))),
          OrI (Instruction ''EntryBlock'' 0) (Instruction ''EntryBlock'' 1),
          ZExt (Instruction ''EntryBlock'' 2),
          CondBr (Instruction ''EntryBlock'' 2) ''error_bb'' ''merge_bb'']
         [Ret (Instruction ''EntryBlock'' 3)]
         (merge1 @ [Ret (Instruction ''EntryBlock'' 3)]) = (f, mdl)" and
    ir: "ir = assign_module (assign_scalars this graph_obj) mdl"
    by blast
  from build_module_shape [OF bm] ir show ?thesis
    by (simp add: assign_module_def APInt32_size_t_add) (simp add: APInt32_def)
qed

lemma call_artifact_mismatch:
  assumes low: "from_graph ap ndebug verifyFunction this graph_obj = Some ([], ir)"
    and mismatch: "len_input \<noteq> word_of_nat (n_dynamic_ind graph_obj + n_variable_ind graph_obj)
        \<or> len_output \<noteq> word_of_nat (length (dependent_vec graph_obj))"
  shows "call_artifact u (Suc (Suc fuel)) ir len_input input len_output output = Some (1, output)"
proof -
  let ?m = "\<lparr>input_buf = input, output_buf = output\<rparr>"
  from from_graph_blocks [OF low] obtain f mdl body where
    mdl: "this_module_ir ir = Some mdl" "defined_functions (globals mdl) = [f]" and
    f: "basic_blocks f =
        [(''EntryBlock'',
          [ICmpNE (Argument 0) (ConstantInt
             (word_of_nat (n_dynamic_ind graph_obj + n_variable_ind graph_obj))),
           ICmpNE (Argument 2) (ConstantInt (word_of_nat (length (dependent_vec graph_obj)))),
           OrI (Instruction ''EntryBlock'' 0) (Instruction ''EntryBlock'' 1),
           ZExt (Instruction ''EntryBlock'' 2),
           CondBr (Instruction ''EntryBlock'' 2) ''error_bb'' ''merge_bb'']),
         (''error_bb'', [Ret (Instruction ''EntryBlock'' 3)]),
         (''merge_bb'', body)]"
    by blast
  from call_function_shape(1) [OF f mismatch]
  have "call_function u (Suc (Suc fuel)) f (call_args len_input len_output) ?m = Some (Int32 1, ?m)" .
  then show ?thesis
    using mdl by (simp add: call_artifact_def)
qed

lemma word_of_nat_sint:
  assumes "n < 2 ^ 31" and "sint (w :: 32 word) \<noteq> int n"
  shows "w \<noteq> word_of_nat n"
  using assms sint_APInt32 [of n] by (auto simp: APInt32_def)





lemma case_not_Inl:
  "binary_case folded create arg st \<noteq> Some (Inl m)"
  "azmul_case folded arg st \<noteq> Some (Inl m)"
  "acosh_case arg st \<noteq> Some (Inl m)"
  "neg_case arg st \<noteq> Some (Inl m)"
  by (auto simp: binary_case_def azmul_case_def acosh_case_def neg_case_def
      split: option.splits prod.splits)

lemma case_Some:
  "operand g0 arg 0 = Some a \<Longrightarrow> operand g0 arg 1 = Some b
     \<Longrightarrow> \<exists>m v. binary_case folded create arg (m0, g0) = Some (Inr (m, g0 @ [Some v]))"
  "operand g0 arg 0 = Some a \<Longrightarrow> operand g0 arg 1 = Some b
     \<Longrightarrow> \<exists>m v. azmul_case folded arg (m0, g0) = Some (Inr (m, g0 @ [Some v]))"
  "operand g0 arg 0 = Some a
     \<Longrightarrow> \<exists>m v. acosh_case arg (m0, g0) = Some (Inr (m, g0 @ [Some v]))"
  "operand g0 arg 0 = Some a
     \<Longrightarrow> \<exists>m v. neg_case arg (m0, g0) = Some (Inr (m, g0 @ [Some v]))"
  by (simp_all add: binary_case_def azmul_case_def acosh_case_def neg_case_def
      split: prod.splits)

lemma lowering_switch_Inl:
  "lowering_switch ap itr_val st = Some (Inl m)
     \<Longrightarrow> \<not> supported (op_enum itr_val) \<and> m = unsupported_operator (op_enum itr_val)"
  by (cases "op_enum itr_val") (simp_all add: lowering_switch_simps case_not_Inl)

lemma lower_operator_Inl:
  "lower_operator ap ndebug itr_val st = Some (Inl m)
     \<Longrightarrow> \<not> supported (op_enum itr_val) \<and> m = unsupported_operator (op_enum itr_val)"
proof -
  assume low: "lower_operator ap ndebug itr_val st = Some (Inl m)"
  show ?thesis
  proof (cases "lowering_switch ap itr_val st = Some (Inl m)")
    case True
    then show ?thesis by (rule lowering_switch_Inl)
  next
    case False
    with low have dbg: "debug_switch itr_val = Some (Inl m)"
      by (auto simp: lower_operator_def split: if_splits option.splits sum.splits)
    then show ?thesis
      by (cases "op_enum itr_val") (auto simp: debug_switch_def Let_def split: if_splits)
  qed
qed

lemma lower_operator_Inr_supported:
  "lower_operator ap ndebug itr_val st = Some (Inr st') \<Longrightarrow> supported (op_enum itr_val)"
  using lower_operator_Inr [of ap ndebug itr_val st st']
  by (cases "op_enum itr_val") (auto simp: lowering_switch_simps)

lemma lower_operators_Inl:
  "lower_operators ap ndebug ops st = Some (Inl (m, bb))
     \<Longrightarrow> \<exists>itr_val \<in> set ops. \<not> supported (op_enum itr_val)
           \<and> m = unsupported_operator (op_enum itr_val)"
proof (induction ops arbitrary: st)
  case Nil
  then show ?case by simp
next
  case (Cons itr_val ops)
  show ?case
  proof (cases "lower_operator ap ndebug itr_val st")
    case None
    with Cons.prems show ?thesis by simp
  next
    case (Some r)
    show ?thesis
    proof (cases r)
      case (Inl m')
      with Some Cons.prems have "m = m'" by simp
      with lower_operator_Inl [of ap ndebug itr_val st m'] Some Inl show ?thesis by simp
    next
      case (Inr st')
      with Some Cons.prems have "lower_operators ap ndebug ops st' = Some (Inl (m, bb))" by simp
      from Cons.IH [OF this] show ?thesis by auto
    qed
  qed
qed

lemma lower_operators_Inr_supported:
  "lower_operators ap ndebug ops st = Some (Inr st')
     \<Longrightarrow> list_all (\<lambda>itr_val. supported (op_enum itr_val)) ops"
proof (induction ops arbitrary: st)
  case Nil
  then show ?case by simp
next
  case (Cons itr_val ops)
  from Cons.prems obtain st1 where
    one: "lower_operator ap ndebug itr_val st = Some (Inr st1)" and
    rest: "lower_operators ap ndebug ops st1 = Some (Inr st')"
    by (auto split: option.splits sum.splits)
  from lower_operator_Inr_supported [OF one] Cons.IH [OF rest] show ?case by simp
qed


lemma build_function_cases:
  assumes "build_function ap ndebug verifyFunction msg this graph_obj = Some (m, ir)"
  shows "(m = [] \<and> list_all (\<lambda>itr_val. supported (op_enum itr_val)) (operator_vec graph_obj)
            \<and> \<not> verification_failed verifyFunction ir)
       \<or> (m = msg @ ''error during verification of llvm_ir function''
            \<and> list_all (\<lambda>itr_val. supported (op_enum itr_val)) (operator_vec graph_obj)
            \<and> verification_failed verifyFunction ir)
       \<or> (\<exists>itr_val \<in> set (operator_vec graph_obj). \<not> supported (op_enum itr_val)
            \<and> m = msg @ unsupported_operator (op_enum itr_val))"
proof (cases "lower_nodes ap ndebug graph_obj")
  case None
  with assms show ?thesis
    by (simp add: build_function_def check_lengths_eq split: if_splits)
next
  case (Some r)
  from assms have fresh: "this_module_ir this = None"
    by (auto simp: build_function_def split: if_splits)
  show ?thesis
  proof (cases r)
    case (Inl e)
    obtain m' bb where e: "e = (m', bb)" by (cases e)
    from Some Inl e have "lower_operators ap ndebug (operator_vec graph_obj)
        (fst (fold (load_independent (n_dynamic_ind graph_obj)) [0..<n_variable_ind graph_obj]
           (fold (load_independent 0) [0..<n_dynamic_ind graph_obj] ([], [None]))),
         snd (fold (load_independent (n_dynamic_ind graph_obj)) [0..<n_variable_ind graph_obj]
           (fold (load_independent 0) [0..<n_dynamic_ind graph_obj] ([], [None])))
         @ map (\<lambda>c_i. Some (ConstantFP c_i)) (constant_vec graph_obj)) = Some (Inl (m', bb))"
      by (simp add: lower_nodes_def Let_def)
    from lower_operators_Inl [OF this] obtain itr_val where
      "itr_val \<in> set (operator_vec graph_obj)" "\<not> supported (op_enum itr_val)"
      "m' = unsupported_operator (op_enum itr_val)" by blast
    moreover from assms Some Inl e fresh have "m = msg @ m'"
      by (simp add: build_function_def check_lengths_eq)
    ultimately show ?thesis by blast
  next
    case (Inr st)
    obtain merge graph_ir where st: "st = (merge, graph_ir)" by (cases st)
    from Some Inr st have "lower_operators ap ndebug (operator_vec graph_obj)
        (fst (fold (load_independent (n_dynamic_ind graph_obj)) [0..<n_variable_ind graph_obj]
           (fold (load_independent 0) [0..<n_dynamic_ind graph_obj] ([], [None]))),
         snd (fold (load_independent (n_dynamic_ind graph_obj)) [0..<n_variable_ind graph_obj]
           (fold (load_independent 0) [0..<n_dynamic_ind graph_obj] ([], [None])))
         @ map (\<lambda>c_i. Some (ConstantFP c_i)) (constant_vec graph_obj)) = Some (Inr (merge, graph_ir))"
      by (simp add: lower_nodes_def Let_def)
    from lower_operators_Inr_supported [OF this]
    have sup: "list_all (\<lambda>itr_val. supported (op_enum itr_val)) (operator_vec graph_obj)" .
    from assms Some Inr st fresh obtain merge1 where
      fin: "finish_function ndebug verifyFunction msg this (Instruction ''EntryBlock'' 3)
        [ICmpNE (Argument 0) (ConstantInt (APInt32
             (size_t_add (this_n_dynamic_ind this) (this_n_variable_ind this)))),
          ICmpNE (Argument 2) (ConstantInt (APInt32 (this_n_variable_dep this))),
          OrI (Instruction ''EntryBlock'' 0) (Instruction ''EntryBlock'' 1),
          ZExt (Instruction ''EntryBlock'' 2),
          CondBr (Instruction ''EntryBlock'' 2) ''error_bb'' ''merge_bb'']
        [Ret (Instruction ''EntryBlock'' 3)] merge1 = Some (m, ir)"
      by (auto simp: build_function_def check_lengths_eq split: option.splits)
    then have "(m = [] \<and> \<not> verification_failed verifyFunction ir)
        \<or> (m = msg @ ''error during verification of llvm_ir function''
            \<and> verification_failed verifyFunction ir)"
      by (auto simp: finish_function_def verification_failed_def insert_instr_def Let_def
          build_module_def getOrInsertFunction_def getFunction_def assign_module_def
          split: if_splits prod.splits)
    with sup show ?thesis by blast
  qed
qed

lemma from_graph_cases:
  assumes "from_graph ap ndebug verifyFunction this graph_obj = Some (m, ir)"
  shows "(\<exists>e. spec_validate graph_obj = Some e \<and> m = error_message e)
       \<or> (spec_validate graph_obj = None \<and>
           ((m = [] \<and> list_all (\<lambda>itr_val. supported (op_enum itr_val)) (operator_vec graph_obj)
               \<and> \<not> verification_failed verifyFunction ir)
         \<or> (m = ''llvm_ir::from_graph: error during verification of llvm_ir function''
               \<and> list_all (\<lambda>itr_val. supported (op_enum itr_val)) (operator_vec graph_obj)
               \<and> verification_failed verifyFunction ir)
         \<or> (\<exists>itr_val \<in> set (operator_vec graph_obj). \<not> supported (op_enum itr_val)
               \<and> m = ''llvm_ir::from_graph: '' @ unsupported_operator (op_enum itr_val))))"
proof (cases "spec_validate graph_obj")
  case (Some e)
  with assms have "m = error_message e"
    by (auto simp: from_graph_def spec_validate_def feature_table_def Let_def split: if_splits)
  with Some show ?thesis by blast
next
  case None
  with assms have "build_function ap ndebug verifyFunction ''llvm_ir::from_graph: ''
      (assign_scalars this graph_obj) graph_obj = Some (m, ir)"
    by (auto simp: from_graph_def spec_validate_def Let_def split: if_splits)
  from build_function_cases [OF this] None show ?thesis by simp
qed

lemma no_null_snoc: "no_null g \<Longrightarrow> no_null (g @ [Some v])"
  by (auto simp: no_null_def nth_append)

lemma load_independent_snd:
  "\<exists>v. snd (load_independent off i st) = snd st @ [Some v]"
  by (cases st) (simp add: load_independent_def insert_instr_def)

lemma fold_load_no_null:
  "no_null (snd st) \<Longrightarrow>
     no_null (snd (fold (load_independent off) [0..<n] st))
     \<and> length (snd (fold (load_independent off) [0..<n] st)) = length (snd st) + n"
proof (induction n)
  case 0
  then show ?case by simp
next
  case (Suc n)
  obtain v where "snd (load_independent off n (fold (load_independent off) [0..<n] st)) =
      snd (fold (load_independent off) [0..<n] st) @ [Some v]"
    using load_independent_snd by blast
  with Suc show ?case by (simp add: no_null_snoc)
qed

lemma no_null_constants: "no_null g \<Longrightarrow> no_null (g @ map (\<lambda>c. Some (ConstantFP c)) cs)"
  by (auto simp: no_null_def nth_append)

lemma operand_ok:
  "no_null g \<Longrightarrow> j < length arg \<Longrightarrow> list_all (\<lambda>a. 0 < a \<and> a < length g) arg
     \<Longrightarrow> \<exists>v. operand g arg j = Some v"
  by (auto simp: operand_def no_null_def list_all_length)

lemma lower_operator_ok:
  assumes "node_ok (length g0) itr_val" "supported (op_enum itr_val)" "no_null g0"
  shows "\<exists>m v. lower_operator ap ndebug itr_val (m0, g0) = Some (Inr (m, g0 @ [Some v]))"
proof -
  from assms(1) have ar: "length (arg_node itr_val) = arity (op_enum itr_val)"
    and dbg: "n_result itr_val = 1" "str_index itr_val = []"
    and args: "list_all (\<lambda>a. 0 < a \<and> a < length g0) (arg_node itr_val)"
    by (simp_all add: node_ok_def)
  have op0: "0 < arity (op_enum itr_val) \<Longrightarrow> \<exists>v. operand g0 (arg_node itr_val) 0 = Some v"
    using operand_ok [OF assms(3) _ args, of 0] ar by simp
  have op1: "1 < arity (op_enum itr_val) \<Longrightarrow> \<exists>v. operand g0 (arg_node itr_val) 1 = Some v"
    using operand_ok [OF assms(3) _ args, of 1] ar by simp
  have sw: "lower_operator ap ndebug itr_val (m0, g0) = lowering_switch ap itr_val (m0, g0)"
    using assms(2) ar dbg
    by (cases "op_enum itr_val") (simp_all add: lower_operator_def debug_switch_def Let_def)
  show ?thesis
  proof (cases "op_enum itr_val")
    case acosh_graph_op
    with op0 obtain a where "operand g0 (arg_node itr_val) 0 = Some a" by auto
    from case_Some(3) [OF this] acosh_graph_op show ?thesis
      by (simp add: sw lowering_switch_simps)
  next
    case add_graph_op
    with op0 op1 obtain a b where "operand g0 (arg_node itr_val) 0 = Some a"
      "operand g0 (arg_node itr_val) 1 = Some b" by auto
    from case_Some(1) [OF this] add_graph_op show ?thesis
      by (simp add: sw lowering_switch_simps)
  next
    case azmul_graph_op
    with op0 op1 obtain a b where "operand g0 (arg_node itr_val) 0 = Some a"
      "operand g0 (arg_node itr_val) 1 = Some b" by auto
    from case_Some(2) [OF this] azmul_graph_op show ?thesis
      by (simp add: sw lowering_switch_simps)
  next
    case div_graph_op
    with op0 op1 obtain a b where "operand g0 (arg_node itr_val) 0 = Some a"
      "operand g0 (arg_node itr_val) 1 = Some b" by auto
    from case_Some(1) [OF this] div_graph_op show ?thesis
      by (simp add: sw lowering_switch_simps)
  next
    case mul_graph_op
    with op0 op1 obtain a b where "operand g0 (arg_node itr_val) 0 = Some a"
      "operand g0 (arg_node itr_val) 1 = Some b" by auto
    from case_Some(1) [OF this] mul_graph_op show ?thesis
      by (simp add: sw lowering_switch_simps)
  next
    case neg_graph_op
    with op0 obtain a where "operand g0 (arg_node itr_val) 0 = Some a" by auto
    from case_Some(4) [OF this] neg_graph_op show ?thesis
      by (simp add: sw lowering_switch_simps)
  next
    case sub_graph_op
    with op0 op1 obtain a b where "operand g0 (arg_node itr_val) 0 = Some a"
      "operand g0 (arg_node itr_val) 1 = Some b" by auto
    from case_Some(1) [OF this] sub_graph_op show ?thesis
      by (simp add: sw lowering_switch_simps)
  next
    case (other_graph_op s)
    with assms(2) show ?thesis by simp
  qed
qed

lemma lower_operators_ok:
  "nodes_ok (length g0) ops \<Longrightarrow> list_all (\<lambda>itr_val. supported (op_enum itr_val)) ops
     \<Longrightarrow> no_null g0
     \<Longrightarrow> \<exists>m g. lower_operators ap ndebug ops (m0, g0) = Some (Inr (m, g))
           \<and> length g = length g0 + length ops \<and> no_null g"
proof (induction ops arbitrary: m0 g0)
  case Nil
  then show ?case by simp
next
  case (Cons itr_val ops)
  from Cons.prems have ok: "node_ok (length g0) itr_val" "supported (op_enum itr_val)"
    and rest: "nodes_ok (Suc (length g0)) ops"
      "list_all (\<lambda>itr_val. supported (op_enum itr_val)) ops"
    by simp_all
  from lower_operator_ok [OF ok Cons.prems(3)] obtain m1 v where
    one: "lower_operator ap ndebug itr_val (m0, g0) = Some (Inr (m1, g0 @ [Some v]))" by blast
  have "nodes_ok (length (g0 @ [Some v])) ops" using rest(1) by simp
  from Cons.IH [OF this rest(2) no_null_snoc [OF Cons.prems(3)], of m1] one
  show ?case by auto
qed

lemma lower_operators_append:
  "lower_operators ap ndebug pre st = Some (Inr st')
     \<Longrightarrow> lower_operators ap ndebug (pre @ post) st = lower_operators ap ndebug post st'"
  by (induction pre arbitrary: st) (auto split: option.splits sum.splits)

lemma lower_operator_unsupported:
  "\<not> supported (op_enum itr_val)
     \<Longrightarrow> lower_operator ap ndebug itr_val st = Some (Inl (unsupported_operator (op_enum itr_val)))"
  by (cases "op_enum itr_val")
     (simp_all add: lower_operator_def debug_switch_def lowering_switch_simps)

text \<open>The state in which the loop over the operators starts.\<close>

lemma lower_nodes_start:
  "\<exists>m0 g0. lower_nodes ap ndebug graph_obj = lower_operators ap ndebug (operator_vec graph_obj) (m0, g0)
     \<and> no_null g0
     \<and> length g0 = 1 + n_dynamic_ind graph_obj + n_variable_ind graph_obj
          + length (constant_vec graph_obj)"
proof -
  let ?st1 = "fold (load_independent 0) [0..<n_dynamic_ind graph_obj] ([], [None])"
  let ?st2 = "fold (load_independent (n_dynamic_ind graph_obj)) [0..<n_variable_ind graph_obj] ?st1"
  have 0: "no_null (snd ([] :: basic_block, [None :: llvm_value option]))"
    by (auto simp: no_null_def)
  from fold_load_no_null [OF 0, of 0 "n_dynamic_ind graph_obj"]
  have 1: "no_null (snd ?st1)" "length (snd ?st1) = 1 + n_dynamic_ind graph_obj" by simp_all
  from fold_load_no_null [OF 1(1), of "n_dynamic_ind graph_obj" "n_variable_ind graph_obj"] 1(2)
  have 2: "no_null (snd ?st2)"
    "length (snd ?st2) = 1 + n_dynamic_ind graph_obj + n_variable_ind graph_obj" by simp_all
  show ?thesis
    by (rule exI [of _ "fst ?st2"],
        rule exI [of _ "snd ?st2 @ map (\<lambda>c_i. Some (ConstantFP c_i)) (constant_vec graph_obj)"])
       (simp add: lower_nodes_def Let_def no_null_constants [OF 2(1)] 2(2))
qed

lemma lower_nodes_unsupported:
  assumes ops: "operator_vec graph_obj = pre @ itr_val # post"
    and pre: "list_all (\<lambda>itr_val. supported (op_enum itr_val)) pre"
      "nodes_ok (1 + n_dynamic_ind graph_obj + n_variable_ind graph_obj
                 + length (constant_vec graph_obj)) pre"
    and bad: "\<not> supported (op_enum itr_val)"
  shows "\<exists>merge. lower_nodes ap ndebug graph_obj =
           Some (Inl (unsupported_operator (op_enum itr_val), merge))"
proof -
  from lower_nodes_start [of ap ndebug graph_obj] obtain m0 g0 where
    start: "lower_nodes ap ndebug graph_obj =
      lower_operators ap ndebug (operator_vec graph_obj) (m0, g0)" and
    g0: "no_null g0" "length g0 = 1 + n_dynamic_ind graph_obj + n_variable_ind graph_obj
          + length (constant_vec graph_obj)"
    by blast
  from pre(2) g0(2) have "nodes_ok (length g0) pre" by simp
  from lower_operators_ok [OF this pre(1) g0(1)] obtain m g where
    "lower_operators ap ndebug pre (m0, g0) = Some (Inr (m, g))" by blast
  from lower_operators_append [OF this]
  have "lower_operators ap ndebug (pre @ itr_val # post) (m0, g0) =
      lower_operators ap ndebug (itr_val # post) (m, g)" .
  with start ops lower_operator_unsupported [OF bad, of ap ndebug "(m, g)"] show ?thesis
    by simp
qed

lemma from_graph_unsupported:
  assumes "this_module_ir this = None"
    and "spec_validate graph_obj = None"
    and "operator_vec graph_obj = pre @ itr_val # post"
    and "list_all (\<lambda>itr_val. supported (op_enum itr_val)) pre"
    and "nodes_ok (1 + n_dynamic_ind graph_obj + n_variable_ind graph_obj
                 + length (constant_vec graph_obj)) pre"
    and "\<not> supported (op_enum itr_val)"
  shows "\<exists>ir. from_graph ap ndebug verifyFunction this graph_obj =
     Some (''llvm_ir::from_graph: graph_obj has following unsupported operator ''
           @ op_enum2name (op_enum itr_val), ir)"
proof -
  from lower_nodes_unsupported [OF assms(3-6)] obtain merge where
    "lower_nodes ap ndebug graph_obj = Some (Inl (unsupported_operator (op_enum itr_val), merge))"
    by blast
  with assms(1,2) show ?thesis
    by (auto simp: from_graph_def build_function_def spec_validate_def check_lengths_eq
        unsupported_operator_def Let_def split: if_splits)
qed

lemma example_ir:
  "from_graph ap False (\<lambda>f. False) empty_ir example_graph = Some ([], example_ir ap)"
  using example_graph_lowers [of ap] by (auto simp: example_ir_def)

lemma example_graph_unverified:
  "\<exists>ir. from_graph ap False (\<lambda>f. True) empty_ir example_graph =
     Some (''llvm_ir::from_graph: error during verification of llvm_ir function'', ir)"
proof -
  have "map_option fst (from_graph ap False (\<lambda>f. True) empty_ir example_graph) =
      Some ''llvm_ir::from_graph: error during verification of llvm_ir function''"
    by (simp add: lowering_defs example_graph_def empty_ir_def)
  then show ?thesis
    by (cases "from_graph ap False (\<lambda>f. True) empty_ir example_graph") auto
qed



lemma from_graph_success_module:
  assumes "from_graph ap ndebug verifyFunction this graph_obj = Some ([], ir)"
  shows "this_module_ir ir \<noteq> None"
  using from_graph_success [OF assms] by (auto simp: assign_module_def)

lemma from_graph_holds_module:
  assumes "this_module_ir this \<noteq> None" and "spec_validate graph_obj = None"
  shows "from_graph ap ndebug verifyFunction this graph_obj = None"
  using assms
  by (auto simp: from_graph_def build_function_def spec_validate_def Let_def split: if_splits)



section \<open>The absolute-zero product\<close>














lemma is_inf_not_zero: "is_inf a \<Longrightarrow> \<not> fcmp_oeq a pos_zero"
  by (auto simp: fcmp_oeq_def is_inf_def is_zero_def fp_magnitude_def pos_zero_def)


lemma special_values:
  "is_nan quiet_nan" "is_inf pos_inf" "is_zero pos_zero" "\<not> fcmp_oeq d_1_5 pos_zero"
  by (simp_all add: is_nan_def is_inf_def is_zero_def fp_magnitude_def quiet_nan_def pos_inf_def
      pos_zero_def fcmp_oeq_def d_1_5_def)


lemma azmul_graph_lowers:
  "from_graph ap False (\<lambda>f. False) empty_ir azmul_graph = Some ([], azmul_ir ap)"
proof -
  have "map_option fst (from_graph ap False (\<lambda>f. False) empty_ir azmul_graph) = Some []"
    by (simp add: lowering_defs azmul_graph_def empty_ir_def numeral_2_eq_2)
  then show ?thesis
    by (cases "from_graph ap False (\<lambda>f. False) empty_ir azmul_graph") (auto simp: azmul_ir_def)
qed



lemma constant_graph_lowers:
  "from_graph ap False (\<lambda>f. False) empty_ir (constant_graph c1 c2)
     = Some ([], constant_ir ap c1 c2)"
proof -
  have "map_option fst (from_graph ap False (\<lambda>f. False) empty_ir (constant_graph c1 c2))
      = Some []"
    by (simp add: lowering_defs constant_graph_def empty_ir_def numeral_2_eq_2)
  then show ?thesis
    by (cases "from_graph ap False (\<lambda>f. False) empty_ir (constant_graph c1 c2)")
       (auto simp: constant_ir_def)
qed

lemma constant_graph_facts:
  "n_dynamic_ind (constant_graph c1 c2) + n_variable_ind (constant_graph c1 c2)
     \<le> length [x, y :: double]"
  "n_dynamic_ind (constant_graph c1 c2) + n_variable_ind (constant_graph c1 c2) \<le> 2 ^ 31"
  "2 < length (operator_vec (constant_graph c1 c2))"
  "op_enum (operator_vec (constant_graph c1 c2) ! 2) = azmul_graph_op"
  "arg_node (operator_vec (constant_graph c1 c2) ! 2) ! 0 = 3"
  "arg_node (operator_vec (constant_graph c1 c2) ! 2) ! 1 = 4"
  "operator_node (constant_graph c1 c2) 2 = 7"
  "arg_node (operator_vec (constant_graph c1 c2) ! 2) ! Suc 0 = 4"
  "sint (2 :: 32 word) = int (n_dynamic_ind (constant_graph c1 c2)
     + n_variable_ind (constant_graph c1 c2))"
  "sint (3 :: 32 word) = int (length (dependent_vec (constant_graph c1 c2)))"
  "dependent_vec (constant_graph c1 c2) = [5, 6, 7]"
  by (simp_all add: constant_graph_def operator_node_def)


lemma constant_graph_values:
  "map (node_value ap u (constant_graph c1 c2) [x, y]) [5, 6, 7] =
     [ap_multiply ap c1 c2, fmul u x y,
      if fcmp_oeq c1 pos_zero then pos_zero else ap_multiply ap c1 c2]"
  by (simp add: node_value_def node_table_def constant_graph_def independent_values_def
      operator_value_simps binary_value_def)



section \<open>The checks of \<^verbatim>\<open>FunCheckCases\<close>\<close>

lemma record_at_pair:
  "record_at [a, b] =
     [if 0 \<le> a then Exp_op (Independent_op 0) else Exp_op (Minus_op (Independent_op 0)),
      if 0 \<le> b then Exp_op (Independent_op 1) else Exp_op (Minus_op (Independent_op 1))]"
  by (simp add: record_at_def store_sequence_def Fun_def AD_type_def Independent_def
      numeral_2_eq_2)

lemma g_double_pair:
  "g_double [a, b] = [if 0 \<le> a then exp a else exp (- a), if 0 \<le> b then exp b else exp (- b)]"
  by (simp add: g_double_def Fun_def double_type_def numeral_2_eq_2)

lemma exp_one_bounds: "2 \<le> exp (1 :: real)" "exp (- 1 :: real) \<le> 1 / 2" "exp (1 :: real) \<le> 3"
proof -
  show two: "2 \<le> exp (1 :: real)"
    using exp_ge_add_one_self [of "1 :: real"] by simp
  have "exp (- 1 :: real) = 1 / exp 1"
    by (simp add: exp_minus inverse_eq_divide)
  also have "\<dots> \<le> 1 / 2"
    using two by (simp add: field_simps)
  finally show "exp (- 1 :: real) \<le> 1 / 2" .
  show "exp (1 :: real) \<le> 3"
    using exp_le by simp
qed

lemma flipped_point_differs:
  "\<not> \<bar>exp (- 1 :: real) - exp 1\<bar> \<le> 1 / 10 ^ 10 + 1 / 10 ^ 10 * \<bar>exp 1\<bar>"
proof -
  have "1 / 10 ^ 10 + 1 / 10 ^ 10 * \<bar>exp (1 :: real)\<bar> \<le> 1 / 10 ^ 10 + 1 / 10 ^ 10 * 3"
    using exp_one_bounds(3) by simp
  also have "\<dots> < 3 / 2" by simp
  also have "\<dots> \<le> exp (1 :: real) - exp (- 1)"
    using exp_one_bounds(1,2) by simp
  also have "\<dots> \<le> \<bar>exp (- 1 :: real) - exp 1\<bar>" by simp
  finally show ?thesis by simp
qed


section \<open>The claims\<close>

text \<open>
  C1.  Let \<open>from_graph\<close> return the empty message for a graph, so that the graph passed
  the checks and every operator was lowered, and let the function it built be called with
  \<open>len_input\<close> equal to the number of dynamic plus variable independents and \<open>len_output\<close>
  equal to the number of dependents, on buffers that hold at least that many doubles.  Then
  the call returns 0, and place \<open>i\<close> of the output buffer holds the value of the node
  \<open>dependent_vec[i]\<close>, for every \<open>i\<close> below the number of dependents; the places after
  them keep what they held.  The value of a node is its slot of \<open>node_table\<close>: the
  dynamic independents read from the start of the input, then the variable independents,
  then the constants, then the operators in the order of the sequence.  The result of an
  arithmetic operator all of whose arguments are known when the function is built is the
  one that \<^verbatim>\<open>APFloat\<close> computes for the builder, and every other result is the one
  that the machine computes: in the graph \<open>constant_graph\<close> the product of the two
  constants is the first and the product of the two variables is the second.  Two blocks
  are entered, so any fuel from 2 on gives the result.
\<close>

theorem from_graph_call_stores_dependents:
  assumes "from_graph ap ndebug verifyFunction this graph_obj = Some ([], ir)"
    and "sint len_input = int (n_dynamic_ind graph_obj + n_variable_ind graph_obj)"
    and "sint len_output = int (length (dependent_vec graph_obj))"
    and "n_dynamic_ind graph_obj + n_variable_ind graph_obj \<le> length input"
    and "length (dependent_vec graph_obj) \<le> length output"
  shows "call_artifact u (Suc (Suc fuel)) ir len_input input len_output output =
    Some (0, map (node_value ap u graph_obj input) (dependent_vec graph_obj)
             @ drop (length (dependent_vec graph_obj)) output)"
  using assms by (rule call_artifact_success)

theorem from_graph_call_stores_dependents_witness:
  "\<forall>ap u. from_graph ap False (\<lambda>f. False) empty_ir example_graph = Some ([], example_ir ap)
     \<and> sint (2 :: 32 word) = int (n_dynamic_ind example_graph + n_variable_ind example_graph)
     \<and> sint (3 :: 32 word) = int (length (dependent_vec example_graph))
     \<and> n_dynamic_ind example_graph + n_variable_ind example_graph \<le> length [d_1_5, d_2]
     \<and> length (dependent_vec example_graph) \<le> length [7, 7, 7, 7 :: double]
     \<and> call_artifact u 2 (example_ir ap) 2 [d_1_5, d_2] 3 [7, 7, 7, 7]
         = Some (0, [fadd u d_1_5 d_2, d_minus_2, pos_zero, 7])
     \<and> from_graph ap False (\<lambda>f. False) empty_ir (constant_graph pos_inf pos_zero)
         = Some ([], constant_ir ap pos_inf pos_zero)
     \<and> call_artifact u 2 (constant_ir ap pos_inf pos_zero) 2 [pos_inf, pos_zero] 3 [7, 7, 7]
         = Some (0, [ap_multiply ap pos_inf pos_zero, fmul u pos_inf pos_zero,
                     ap_multiply ap pos_inf pos_zero])"
proof (intro allI)
  fix ap :: apfloat and u :: fpu
  have inbuf: "n_dynamic_ind example_graph + n_variable_ind example_graph \<le> length [d_1_5, d_2]"
    and outbuf: "length (dependent_vec example_graph) \<le> length [7, 7, 7, 7 :: double]"
    and deps: "dependent_vec example_graph = [6, 4, 5]"
    by (simp_all add: example_graph_def)
  from from_graph_call_stores_dependents [where ap = ap and u = u and fuel = 0,
      OF example_ir example_graph_lengths inbuf outbuf]
  have 1: "call_artifact u 2 (example_ir ap) 2 [d_1_5, d_2] 3 [7, 7, 7, 7]
      = Some (0, [fadd u d_1_5 d_2, d_minus_2, pos_zero, 7])"
    using example_graph_values [of ap u] by (simp add: numeral_2_eq_2 deps)
  have outbuf': "length (dependent_vec (constant_graph pos_inf pos_zero))
      \<le> length [7, 7, 7 :: double]"
    by (simp add: constant_graph_def)
  have guard: "\<not> fcmp_oeq pos_inf pos_zero"
    by (rule is_inf_not_zero) (rule special_values)
  from from_graph_call_stores_dependents [where ap = ap and u = u and fuel = 0,
      OF constant_graph_lowers constant_graph_facts(9,10) constant_graph_facts(1) outbuf']
  have 2: "call_artifact u 2 (constant_ir ap pos_inf pos_zero) 2 [pos_inf, pos_zero] 3 [7, 7, 7]
      = Some (0, [ap_multiply ap pos_inf pos_zero, fmul u pos_inf pos_zero,
                  ap_multiply ap pos_inf pos_zero])"
    using constant_graph_values [of ap u pos_inf pos_zero pos_inf pos_zero] guard
    by (simp add: numeral_2_eq_2 constant_graph_facts(11))
  from example_ir [of ap] example_graph_lengths inbuf outbuf 1 constant_graph_lowers 2
  show "from_graph ap False (\<lambda>f. False) empty_ir example_graph = Some ([], example_ir ap)
     \<and> sint (2 :: 32 word) = int (n_dynamic_ind example_graph + n_variable_ind example_graph)
     \<and> sint (3 :: 32 word) = int (length (dependent_vec example_graph))
     \<and> n_dynamic_ind example_graph + n_variable_ind example_graph \<le> length [d_1_5, d_2]
     \<and> length (dependent_vec example_graph) \<le> length [7, 7, 7, 7 :: double]
     \<and> call_artifact u 2 (example_ir ap) 2 [d_1_5, d_2] 3 [7, 7, 7, 7]
         = Some (0, [fadd u d_1_5 d_2, d_minus_2, pos_zero, 7])
     \<and> from_graph ap False (\<lambda>f. False) empty_ir (constant_graph pos_inf pos_zero)
         = Some ([], constant_ir ap pos_inf pos_zero)
     \<and> call_artifact u 2 (constant_ir ap pos_inf pos_zero) 2 [pos_inf, pos_zero] 3 [7, 7, 7]
         = Some (0, [ap_multiply ap pos_inf pos_zero, fmul u pos_inf pos_zero,
                     ap_multiply ap pos_inf pos_zero])"
    by blast
qed



text \<open>
  C3.  Let \<open>from_graph\<close> return the empty message for a graph whose numbers of
  independents and of dependents are below \<open>2 ^ 31\<close>, as the 32-bit signed lengths of the
  function require, and let the function it built be called with a \<open>len_input\<close> that
  differs from the number of dynamic plus variable independents, or with a \<open>len_output\<close>
  that differs from the number of dependents.  Then the call returns the code 1 from the
  second block it enters, and the output buffer is as it was.  The entry block of the
  function makes the two comparisons, joins them with one \<open>or\<close>, extends the result to
  the code, and branches on the result of the \<open>or\<close> to the block that returns the code.
\<close>

theorem length_mismatch_returns_error:
  assumes "from_graph ap ndebug verifyFunction this graph_obj = Some ([], ir)"
    and "n_dynamic_ind graph_obj + n_variable_ind graph_obj < 2 ^ 31"
    and "length (dependent_vec graph_obj) < 2 ^ 31"
    and "sint len_input \<noteq> int (n_dynamic_ind graph_obj + n_variable_ind graph_obj)
        \<or> sint len_output \<noteq> int (length (dependent_vec graph_obj))"
  shows "call_artifact u (Suc (Suc fuel)) ir len_input input len_output output = Some (1, output)
    \<and> (\<exists>f mdl body. this_module_ir ir = Some mdl \<and> defined_functions (globals mdl) = [f]
        \<and> basic_blocks f =
            [(''EntryBlock'',
              [ICmpNE (Argument 0) (ConstantInt
                 (word_of_nat (n_dynamic_ind graph_obj + n_variable_ind graph_obj))),
               ICmpNE (Argument 2) (ConstantInt (word_of_nat (length (dependent_vec graph_obj)))),
               OrI (Instruction ''EntryBlock'' 0) (Instruction ''EntryBlock'' 1),
               ZExt (Instruction ''EntryBlock'' 2),
               CondBr (Instruction ''EntryBlock'' 2) ''error_bb'' ''merge_bb'']),
             (''error_bb'', [Ret (Instruction ''EntryBlock'' 3)]),
             (''merge_bb'', body)])"
proof
  from assms(4) word_of_nat_sint [OF assms(2)] word_of_nat_sint [OF assms(3)]
  have "len_input \<noteq> word_of_nat (n_dynamic_ind graph_obj + n_variable_ind graph_obj)
        \<or> len_output \<noteq> word_of_nat (length (dependent_vec graph_obj))"
    by blast
  with assms(1)
  show "call_artifact u (Suc (Suc fuel)) ir len_input input len_output output = Some (1, output)"
    by (rule call_artifact_mismatch)
  from assms(1)
  show "\<exists>f mdl body. this_module_ir ir = Some mdl \<and> defined_functions (globals mdl) = [f]
        \<and> basic_blocks f =
            [(''EntryBlock'',
              [ICmpNE (Argument 0) (ConstantInt
                 (word_of_nat (n_dynamic_ind graph_obj + n_variable_ind graph_obj))),
               ICmpNE (Argument 2) (ConstantInt (word_of_nat (length (dependent_vec graph_obj)))),
               OrI (Instruction ''EntryBlock'' 0) (Instruction ''EntryBlock'' 1),
               ZExt (Instruction ''EntryBlock'' 2),
               CondBr (Instruction ''EntryBlock'' 2) ''error_bb'' ''merge_bb'']),
             (''error_bb'', [Ret (Instruction ''EntryBlock'' 3)]),
             (''merge_bb'', body)]"
    by (rule from_graph_blocks)
qed

theorem length_mismatch_returns_error_witness:
  "\<forall>ap u. from_graph ap False (\<lambda>f. False) empty_ir azmul_graph = Some ([], azmul_ir ap)
     \<and> n_dynamic_ind azmul_graph + n_variable_ind azmul_graph < 2 ^ 31
     \<and> length (dependent_vec azmul_graph) < 2 ^ 31
     \<and> sint (1 :: 32 word) \<noteq> int (n_dynamic_ind azmul_graph + n_variable_ind azmul_graph)
     \<and> call_artifact u 2 (azmul_ir ap) 1 [d_1_5, d_2] 1 [7] = Some (1, [7])
     \<and> sint (2 :: 32 word) \<noteq> int (length (dependent_vec azmul_graph))
     \<and> call_artifact u 2 (azmul_ir ap) 2 [d_1_5, d_2] 2 [7, 7] = Some (1, [7, 7])"
proof (intro allI)
  fix ap :: apfloat and u :: fpu
  have small: "n_dynamic_ind azmul_graph + n_variable_ind azmul_graph < 2 ^ 31"
    "length (dependent_vec azmul_graph) < 2 ^ 31"
    and inp: "sint (1 :: 32 word) \<noteq> int (n_dynamic_ind azmul_graph + n_variable_ind azmul_graph)"
    and outp: "sint (2 :: 32 word) \<noteq> int (length (dependent_vec azmul_graph))"
    by (simp_all add: azmul_graph_def)
  from inp have 1:
    "sint (1 :: 32 word) \<noteq> int (n_dynamic_ind azmul_graph + n_variable_ind azmul_graph)
       \<or> sint (1 :: 32 word) \<noteq> int (length (dependent_vec azmul_graph))" ..
  from outp have 2:
    "sint (2 :: 32 word) \<noteq> int (n_dynamic_ind azmul_graph + n_variable_ind azmul_graph)
       \<or> sint (2 :: 32 word) \<noteq> int (length (dependent_vec azmul_graph))" ..
  from length_mismatch_returns_error [where ap = ap and u = u and fuel = 0,
      OF azmul_graph_lowers small 1]
  have a: "call_artifact u 2 (azmul_ir ap) 1 [d_1_5, d_2] 1 [7] = Some (1, [7])"
    by (simp add: numeral_2_eq_2)
  from length_mismatch_returns_error [where ap = ap and u = u and fuel = 0,
      OF azmul_graph_lowers small 2]
  have b: "call_artifact u 2 (azmul_ir ap) 2 [d_1_5, d_2] 2 [7, 7] = Some (1, [7, 7])"
    by (simp add: numeral_2_eq_2)
  from azmul_graph_lowers [of ap] small inp outp a b
  show "from_graph ap False (\<lambda>f. False) empty_ir azmul_graph = Some ([], azmul_ir ap)
     \<and> n_dynamic_ind azmul_graph + n_variable_ind azmul_graph < 2 ^ 31
     \<and> length (dependent_vec azmul_graph) < 2 ^ 31
     \<and> sint (1 :: 32 word) \<noteq> int (n_dynamic_ind azmul_graph + n_variable_ind azmul_graph)
     \<and> call_artifact u 2 (azmul_ir ap) 1 [d_1_5, d_2] 1 [7] = Some (1, [7])
     \<and> sint (2 :: 32 word) \<noteq> int (length (dependent_vec azmul_graph))
     \<and> call_artifact u 2 (azmul_ir ap) 2 [d_1_5, d_2] 2 [7, 7] = Some (1, [7, 7])"
    by blast
qed


text \<open>
  C4.  \<open>spec_validate\<close> makes the four checks in the order of the claim: the discrete
  table, the atomic table, the print table, the name.  When it finds an error,
  \<open>from_graph\<close> returns the message of that error, which names the table or the missing
  name; so the earliest failing check decides the message when several fail.  When it
  finds none, whatever \<open>from_graph\<close> returns is not the message of one of these errors.
\<close>

theorem validation_checks_in_order:
  "(\<forall>e. spec_validate graph_obj = Some e \<longrightarrow>
       (\<exists>ir. from_graph ap ndebug verifyFunction this graph_obj = Some (error_message e, ir)))
   \<and> (spec_validate graph_obj = None \<longrightarrow>
       (\<forall>m ir e. from_graph ap ndebug verifyFunction this graph_obj = Some (m, ir)
          \<longrightarrow> m \<noteq> error_message e))"
proof (intro conjI allI impI)
  fix e assume "spec_validate graph_obj = Some e"
  then show "\<exists>ir. from_graph ap ndebug verifyFunction this graph_obj = Some (error_message e, ir)"
    by (auto simp: from_graph_def spec_validate_def feature_table_def Let_def split: if_splits)
next
  fix m ir e
  assume valid: "spec_validate graph_obj = None"
    and low: "from_graph ap ndebug verifyFunction this graph_obj = Some (m, ir)"
  from from_graph_cases [OF low] valid
  have "m = [] \<or> m = ''llvm_ir::from_graph: error during verification of llvm_ir function''
      \<or> (\<exists>op. m = ''llvm_ir::from_graph: '' @ unsupported_operator op)"
    by auto
  then show "m \<noteq> error_message e"
    by (cases e) (auto simp: unsupported_operator_def)
qed

theorem validation_checks_in_order_witness:
  "\<forall>ap. spec_validate rejected_graph = Some (UnsupportedFeature ''discrete'')
   \<and> (\<exists>ir. from_graph ap True (\<lambda>f. False) empty_ir rejected_graph =
        Some (''llvm_ir::from_graph: graph_obj.discrete_name_vec_size() != 0'', ir))
   \<and> spec_validate example_graph = None
   \<and> from_graph ap False (\<lambda>f. False) empty_ir example_graph = Some ([], example_ir ap)
   \<and> [] \<noteq> error_message MissingName"
proof
  fix ap :: apfloat
  have r: "spec_validate rejected_graph = Some (UnsupportedFeature ''discrete'')"
    by (simp add: spec_validate_def rejected_graph_def)
  have v: "spec_validate example_graph = None"
    by (simp add: spec_validate_def example_graph_def)
  from validation_checks_in_order [where graph_obj = rejected_graph and ap = ap
      and ndebug = True and verifyFunction = "\<lambda>f. False" and this = empty_ir] r
  have "\<exists>ir. from_graph ap True (\<lambda>f. False) empty_ir rejected_graph =
        Some (error_message (UnsupportedFeature ''discrete''), ir)"
    by blast
  then have 1: "\<exists>ir. from_graph ap True (\<lambda>f. False) empty_ir rejected_graph =
        Some (''llvm_ir::from_graph: graph_obj.discrete_name_vec_size() != 0'', ir)"
    by (simp add: feature_table_def)
  from validation_checks_in_order [where graph_obj = example_graph and ap = ap
      and ndebug = False and verifyFunction = "\<lambda>f. False" and this = empty_ir] v
    example_ir [of ap]
  have 2: "[] \<noteq> error_message MissingName" by blast
  from r 1 v example_ir [of ap] 2
  show "spec_validate rejected_graph = Some (UnsupportedFeature ''discrete'')
   \<and> (\<exists>ir. from_graph ap True (\<lambda>f. False) empty_ir rejected_graph =
        Some (''llvm_ir::from_graph: graph_obj.discrete_name_vec_size() != 0'', ir))
   \<and> spec_validate example_graph = None
   \<and> from_graph ap False (\<lambda>f. False) empty_ir example_graph = Some ([], example_ir ap)
   \<and> [] \<noteq> error_message MissingName"
    by blast
qed

text \<open>
  C5.  Let a graph pass the four checks, and let its sequence have an operator outside
  \<open>add, sub, mul, div, azmul, neg, acosh\<close>, after operators that are all inside this set
  and well formed (each with the arguments of its arity, all naming earlier nodes).  Then
  \<open>from_graph\<close>, called on an object that holds no module, returns the message of an
  unsupported operator, with the name of that operator.  And when \<open>from_graph\<close> returns
  this message with a name, the sequence has an operator of that name outside the set: no
  operator inside the set brings the message about.
\<close>

theorem unsupported_operator_rejected:
  "(this_module_ir this = None
      \<and> spec_validate graph_obj = None
      \<and> operator_vec graph_obj = pre @ itr_val # post
      \<and> list_all (\<lambda>itr_val. supported (op_enum itr_val)) pre
      \<and> nodes_ok (1 + n_dynamic_ind graph_obj + n_variable_ind graph_obj
                 + length (constant_vec graph_obj)) pre
      \<and> \<not> supported (op_enum itr_val)
    \<longrightarrow> (\<exists>ir. from_graph ap ndebug verifyFunction this graph_obj =
           Some (''llvm_ir::from_graph: graph_obj has following unsupported operator ''
                 @ op_enum2name (op_enum itr_val), ir)))
   \<and> (from_graph ap ndebug verifyFunction this graph_obj =
         Some (''llvm_ir::from_graph: graph_obj has following unsupported operator '' @ name, ir')
    \<longrightarrow> (\<exists>bad \<in> set (operator_vec graph_obj).
           \<not> supported (op_enum bad) \<and> op_enum2name (op_enum bad) = name))"
proof (intro conjI impI)
  assume "this_module_ir this = None
      \<and> spec_validate graph_obj = None
      \<and> operator_vec graph_obj = pre @ itr_val # post
      \<and> list_all (\<lambda>itr_val. supported (op_enum itr_val)) pre
      \<and> nodes_ok (1 + n_dynamic_ind graph_obj + n_variable_ind graph_obj
                 + length (constant_vec graph_obj)) pre
      \<and> \<not> supported (op_enum itr_val)"
  then show "\<exists>ir. from_graph ap ndebug verifyFunction this graph_obj =
           Some (''llvm_ir::from_graph: graph_obj has following unsupported operator ''
                 @ op_enum2name (op_enum itr_val), ir)"
    using from_graph_unsupported by blast
next
  assume low: "from_graph ap ndebug verifyFunction this graph_obj =
         Some (''llvm_ir::from_graph: graph_obj has following unsupported operator '' @ name, ir')"
  from from_graph_cases [OF low]
  show "\<exists>bad \<in> set (operator_vec graph_obj).
           \<not> supported (op_enum bad) \<and> op_enum2name (op_enum bad) = name"
  proof (elim disjE exE conjE bexE)
    fix e assume "''llvm_ir::from_graph: graph_obj has following unsupported operator '' @ name
        = error_message e"
    then show ?thesis by (cases e) auto
  next
    assume "''llvm_ir::from_graph: graph_obj has following unsupported operator '' @ name = []"
    then show ?thesis by simp
  next
    assume "''llvm_ir::from_graph: graph_obj has following unsupported operator '' @ name
      = ''llvm_ir::from_graph: error during verification of llvm_ir function''"
    then show ?thesis by simp
  next
    fix bad assume "bad \<in> set (operator_vec graph_obj)" "\<not> supported (op_enum bad)"
      "''llvm_ir::from_graph: graph_obj has following unsupported operator '' @ name
        = ''llvm_ir::from_graph: '' @ unsupported_operator (op_enum bad)"
    then show ?thesis by (auto simp: unsupported_operator_def)
  qed
qed

theorem unsupported_operator_rejected_witness:
  "\<forall>ap. this_module_ir empty_ir = None
   \<and> spec_validate sin_graph = None
   \<and> operator_vec sin_graph =
       [\<lparr>op_enum = neg_graph_op, str_index = [], n_result = 1, arg_node = [2]\<rparr>]
       @ \<lparr>op_enum = other_graph_op ''sin'', str_index = [], n_result = 1, arg_node = [4]\<rparr>
       # [\<lparr>op_enum = add_graph_op, str_index = [], n_result = 1, arg_node = [1, 2]\<rparr>]
   \<and> (\<exists>ir. from_graph ap True (\<lambda>f. False) empty_ir sin_graph =
          Some (''llvm_ir::from_graph: graph_obj has following unsupported operator sin'', ir))
   \<and> (\<exists>bad \<in> set (operator_vec sin_graph).
          \<not> supported (op_enum bad) \<and> op_enum2name (op_enum bad) = ''sin'')"
proof
  fix ap :: apfloat
  let ?pre = "[\<lparr>op_enum = neg_graph_op, str_index = [], n_result = 1, arg_node = [2]\<rparr>]"
  let ?bad = "\<lparr>op_enum = other_graph_op ''sin'', str_index = [], n_result = 1, arg_node = [4]\<rparr>"
  let ?post = "[\<lparr>op_enum = add_graph_op, str_index = [], n_result = 1, arg_node = [1, 2]\<rparr>]"
  note inst = unsupported_operator_rejected [where this = empty_ir and graph_obj = sin_graph
      and pre = ?pre and itr_val = ?bad and post = ?post and ap = ap and ndebug = True
      and verifyFunction = "\<lambda>f. False" and name = "''sin''"]
  have hyp: "this_module_ir empty_ir = None
      \<and> spec_validate sin_graph = None
      \<and> operator_vec sin_graph = ?pre @ ?bad # ?post
      \<and> list_all (\<lambda>itr_val. supported (op_enum itr_val)) ?pre
      \<and> nodes_ok (1 + n_dynamic_ind sin_graph + n_variable_ind sin_graph
                 + length (constant_vec sin_graph)) ?pre
      \<and> \<not> supported (op_enum ?bad)"
    by (simp add: sin_graph_def example_graph_def spec_validate_def node_ok_def empty_ir_def)
  with inst have "\<exists>ir. from_graph ap True (\<lambda>f. False) empty_ir sin_graph =
      Some (''llvm_ir::from_graph: graph_obj has following unsupported operator ''
            @ op_enum2name (op_enum ?bad), ir)"
    by blast
  then obtain ir where low: "from_graph ap True (\<lambda>f. False) empty_ir sin_graph =
      Some (''llvm_ir::from_graph: graph_obj has following unsupported operator sin'', ir)"
    by auto
  then have "from_graph ap True (\<lambda>f. False) empty_ir sin_graph =
      Some (''llvm_ir::from_graph: graph_obj has following unsupported operator '' @ ''sin'', ir)"
    by simp
  with inst [of ir] have "\<exists>bad \<in> set (operator_vec sin_graph).
          \<not> supported (op_enum bad) \<and> op_enum2name (op_enum bad) = ''sin''"
    by blast
  with hyp low
  show "this_module_ir empty_ir = None
   \<and> spec_validate sin_graph = None
   \<and> operator_vec sin_graph = ?pre @ ?bad # ?post
   \<and> (\<exists>ir. from_graph ap True (\<lambda>f. False) empty_ir sin_graph =
          Some (''llvm_ir::from_graph: graph_obj has following unsupported operator sin'', ir))
   \<and> (\<exists>bad \<in> set (operator_vec sin_graph).
          \<not> supported (op_enum bad) \<and> op_enum2name (op_enum bad) = ''sin'')"
    by blast
qed

text \<open>
  C6.  \<^verbatim>\<open>FunCheckCases\<close>, with the real numbers for the doubles and with the recording
  and the check modelled from the spec.  The function \<open>Fun\<close> with two components is
  recorded at \<open>X = [-1, 1]\<close>; the check of the recording against \<open>Fun\<close> on doubles, with
  both tolerances \<open>1e-10\<close>, holds at \<open>x = [-1, 1]\<close> and fails at \<open>x = [1, -1]\<close>, where
  the recording computes \<open>exp (- 1)\<close> in both components and the function computes
  \<open>exp 1\<close>; the check of the recording made at \<open>[1, -1]\<close> holds at \<open>x = [1, -1]\<close>.
\<close>

theorem FunCheckCases_true_false_true:
  "FunCheck (record_at [- 1, 1]) g_double [- 1, 1] (1 / 10 ^ 10) (1 / 10 ^ 10)
   \<and> \<not> FunCheck (record_at [- 1, 1]) g_double [1, - 1] (1 / 10 ^ 10) (1 / 10 ^ 10)
   \<and> FunCheck (record_at [1, - 1]) g_double [1, - 1] (1 / 10 ^ 10) (1 / 10 ^ 10)"
proof (intro conjI)
  show "FunCheck (record_at [- 1, 1]) g_double [- 1, 1] (1 / 10 ^ 10) (1 / 10 ^ 10)"
    by (simp add: FunCheck_def Forward_def record_at_pair g_double_pair)
  show "\<not> FunCheck (record_at [- 1, 1]) g_double [1, - 1] (1 / 10 ^ 10) (1 / 10 ^ 10)"
    using flipped_point_differs
    by (simp add: FunCheck_def Forward_def record_at_pair g_double_pair)
  show "FunCheck (record_at [1, - 1]) g_double [1, - 1] (1 / 10 ^ 10) (1 / 10 ^ 10)"
    by (simp add: FunCheck_def Forward_def record_at_pair g_double_pair)
qed

text \<open>
  C7.  Whenever \<open>from_graph\<close> returns, its message is empty exactly when no error was
  detected: the four checks pass, every operator is in the supported set, and the
  verifier finds no error in the function that the object holds.  Every other message is
  the identifier \<^verbatim>\<open>llvm_ir::from_graph: \<close> followed by a text that is not empty; and when
  the checks pass, the operators are supported and the verifier finds an error, the
  message is the one of the failed verification.
\<close>

theorem empty_message_iff_no_error:
  assumes "from_graph ap ndebug verifyFunction this graph_obj = Some (msg, ir)"
  shows "(msg = [] \<longleftrightarrow>
            spec_validate graph_obj = None
          \<and> list_all (\<lambda>itr_val. supported (op_enum itr_val)) (operator_vec graph_obj)
          \<and> \<not> verification_failed verifyFunction ir)
       \<and> (msg \<noteq> [] \<longrightarrow> (\<exists>reason. reason \<noteq> [] \<and> msg = ''llvm_ir::from_graph: '' @ reason))
       \<and> (spec_validate graph_obj = None
          \<and> list_all (\<lambda>itr_val. supported (op_enum itr_val)) (operator_vec graph_obj)
          \<and> verification_failed verifyFunction ir
          \<longrightarrow> msg = ''llvm_ir::from_graph: error during verification of llvm_ir function'')"
  using from_graph_cases [OF assms]
proof (elim disjE exE conjE bexE)
  fix e assume e: "spec_validate graph_obj = Some e" "msg = error_message e"
  then have "msg \<noteq> [] \<and> (\<exists>reason. reason \<noteq> [] \<and> msg = ''llvm_ir::from_graph: '' @ reason)"
    by (cases e) auto
  with e(1) show ?thesis by auto
next
  assume "spec_validate graph_obj = None" "msg = []"
    "list_all (\<lambda>itr_val. supported (op_enum itr_val)) (operator_vec graph_obj)"
    "\<not> verification_failed verifyFunction ir"
  then show ?thesis by simp
next
  assume "spec_validate graph_obj = None"
    "msg = ''llvm_ir::from_graph: error during verification of llvm_ir function''"
    "list_all (\<lambda>itr_val. supported (op_enum itr_val)) (operator_vec graph_obj)"
    "verification_failed verifyFunction ir"
  then show ?thesis by simp
next
  fix bad assume bad: "bad \<in> set (operator_vec graph_obj)" "\<not> supported (op_enum bad)"
    "msg = ''llvm_ir::from_graph: '' @ unsupported_operator (op_enum bad)"
  then have "\<not> list_all (\<lambda>itr_val. supported (op_enum itr_val)) (operator_vec graph_obj)"
    by (auto simp: list_all_iff)
  with bad(3) show ?thesis by (auto simp: unsupported_operator_def)
qed

theorem empty_message_iff_no_error_witness:
  "\<forall>ap. from_graph ap False (\<lambda>f. False) empty_ir example_graph = Some ([], example_ir ap)
   \<and> spec_validate example_graph = None
   \<and> list_all (\<lambda>itr_val. supported (op_enum itr_val)) (operator_vec example_graph)
   \<and> \<not> verification_failed (\<lambda>f. False) (example_ir ap)
   \<and> (\<exists>ir. from_graph ap False (\<lambda>f. True) empty_ir example_graph =
          Some (''llvm_ir::from_graph: error during verification of llvm_ir function'', ir)
        \<and> verification_failed (\<lambda>f. True) ir)"
proof
  fix ap :: apfloat
  from empty_message_iff_no_error [OF example_ir [of ap]]
  have 1: "spec_validate example_graph = None
   \<and> list_all (\<lambda>itr_val. supported (op_enum itr_val)) (operator_vec example_graph)
   \<and> \<not> verification_failed (\<lambda>f. False) (example_ir ap)"
    by blast
  from example_graph_unverified [of ap] obtain ir where
    2: "from_graph ap False (\<lambda>f. True) empty_ir example_graph =
     Some (''llvm_ir::from_graph: error during verification of llvm_ir function'', ir)"
    by blast
  from empty_message_iff_no_error [OF 2] 1
  have "verification_failed (\<lambda>f. True) ir" by auto
  with example_ir [of ap] 1 2
  show "from_graph ap False (\<lambda>f. False) empty_ir example_graph = Some ([], example_ir ap)
   \<and> spec_validate example_graph = None
   \<and> list_all (\<lambda>itr_val. supported (op_enum itr_val)) (operator_vec example_graph)
   \<and> \<not> verification_failed (\<lambda>f. False) (example_ir ap)
   \<and> (\<exists>ir. from_graph ap False (\<lambda>f. True) empty_ir example_graph =
          Some (''llvm_ir::from_graph: error during verification of llvm_ir function'', ir)
        \<and> verification_failed (\<lambda>f. True) ir)"
    by blast
qed









end
